theory Spec2Isabelle
  imports Main "HOL-Library.Char_ord" "HOL-Library.List_Lexorder" "HOL-Library.Product_Lexorder"
    "HOL-Library.Multiset"
begin

section \<open>Python values used by the topology model\<close>

text \<open>
  A Python dict is an association list in insertion order. The first binding of a key is
  its value; \<open>dict_set\<close> overwrites in place or appends, as assignment to \<open>d[k]\<close> does, so
  every list built from \<open>[]\<close> has distinct keys. \<open>dict_keys\<close> and \<open>dict_len\<close> are written
  so that they count keys, not bindings, on every list.
\<close>

type_synonym ('k, 'v) dict = "('k \<times> 'v) list"

definition dict_get :: "('k, 'v) dict \<Rightarrow> 'k \<Rightarrow> 'v option" where
  "dict_get d k = map_of d k"

definition dict_has :: "('k, 'v) dict \<Rightarrow> 'k \<Rightarrow> bool" where
  "dict_has d k = (dict_get d k \<noteq> None)"

fun dict_set :: "'k \<Rightarrow> 'v \<Rightarrow> ('k, 'v) dict \<Rightarrow> ('k, 'v) dict" where
  "dict_set k v [] = [(k, v)]"
| "dict_set k v (b # d) = (if fst b = k then (k, v) # d else b # dict_set k v d)"

definition dict_setdefault :: "'k \<Rightarrow> 'v \<Rightarrow> ('k, 'v) dict \<Rightarrow> ('k, 'v) dict" where
  "dict_setdefault k v d = (if dict_has d k then d else dict_set k v d)"

definition dict_keys :: "('k, 'v) dict \<Rightarrow> 'k list" where
  "dict_keys d = remdups (map fst d)"

definition dict_len :: "('k, 'v) dict \<Rightarrow> nat" where
  "dict_len d = length (dict_keys d)"

datatype error = KeyError | TypeError | AssertionError

datatype pyval = PyNone | PyBool bool | PyInt int | PyStr string

fun truthy :: "pyval \<Rightarrow> bool" where
  "truthy PyNone = False"
| "truthy (PyBool b) = b"
| "truthy (PyInt i) = (i \<noteq> 0)"
| "truthy (PyStr s) = (s \<noteq> [])"

type_synonym name = string
type_synonym opts = "(string, pyval) dict"

section \<open>Natural order (mininet.util)\<close>

text \<open>
  \<open>natural\<close> and \<open>naturalSeq\<close> are imported from \<open>mininet.util\<close>. A key is the list of
  runs of a name, alternately text and number and starting with a (possibly empty) text
  run; it is kept here as the first text run and the list of (number, text) pairs after
  it, whose lexicographic order is the order of the flat list.
\<close>

type_synonym nkey = "string \<times> (nat \<times> string) list"

definition is_digit :: "char \<Rightarrow> bool" where
  "is_digit c = (CHR ''0'' \<le> c \<and> c \<le> CHR ''9'')"

definition int_of_digits :: "string \<Rightarrow> nat" where
  "int_of_digits ds = foldl (\<lambda>a c. 10 * a + (of_char c - 48)) 0 ds"

function digit_runs :: "string \<Rightarrow> (nat \<times> string) list" where
  "digit_runs s =
     (if s = [] then []
      else (int_of_digits (takeWhile is_digit s),
            takeWhile (\<lambda>c. \<not> is_digit c) (dropWhile is_digit s))
           # digit_runs (dropWhile (\<lambda>c. \<not> is_digit c) (dropWhile is_digit s)))"
  by pat_completeness auto
termination
proof (relation "measure length")
  show "wf (measure length)" by simp
next
  fix s :: string
  assume "s \<noteq> []"
  then obtain c cs where s: "s = c # cs" by (cases s) auto
  have a: "length (dropWhile (\<lambda>c. \<not> is_digit c) (dropWhile is_digit cs)) \<le> length cs"
    by (meson length_dropWhile_le order_trans)
  have b: "length (dropWhile (\<lambda>c. \<not> is_digit c) cs) \<le> length cs"
    by (rule length_dropWhile_le)
  show "(dropWhile (\<lambda>c. \<not> is_digit c) (dropWhile is_digit s), s) \<in> measure length"
    using a b by (simp add: s)
qed

declare digit_runs.simps [simp del]

definition natural :: "string \<Rightarrow> nkey" where
  \<comment> \<open>Modelled from the spec: \<open>mininet.util.natural\<close>, imported by topo.py, "splits each
      name into alternating non-digit/digit runs and compares run-by-run, comparing digit
      runs numerically and non-digit runs lexicographically".\<close>
  "natural text =
     (takeWhile (\<lambda>c. \<not> is_digit c) text, digit_runs (dropWhile (\<lambda>c. \<not> is_digit c) text))"

definition naturalSeq :: "name \<times> name \<Rightarrow> nkey list" where
  \<comment> \<open>Modelled from the spec: \<open>mininet.util.naturalSeq\<close>, the "natural composite key
      (comparing src first, then dst, each token-wise as in natural sort)".\<close>
  "naturalSeq t = [natural (fst t), natural (snd t)]"

fun tuple2 :: "'a list \<Rightarrow> 'a \<times> 'a" where
  "tuple2 [a, b] = (a, b)"

section \<open>MultiGraph\<close>

record MultiGraph =
  data :: "(name, name list) dict"

definition MultiGraph_init :: MultiGraph where
  "MultiGraph_init = \<lparr>data = []\<rparr>"

definition add_node :: "name \<Rightarrow> MultiGraph \<Rightarrow> MultiGraph" where
  "add_node node G = G\<lparr>data := dict_setdefault node [] (data G)\<rparr>"

definition add_edge :: "name \<Rightarrow> name \<Rightarrow> MultiGraph \<Rightarrow> MultiGraph" where
  \<comment> \<open>\<open>sorted\<close> is Python's builtin here: plain string order, stable.\<close>
  "add_edge src dest G =
     (let (src1, dest1) = tuple2 (sort [src, dest]);
          G1 = add_node src1 G;
          G2 = add_node dest1 G1
      in G2\<lparr>data := dict_set src1 (the (dict_get (data G2) src1) @ [dest1]) (data G2)\<rparr>)"

definition edges :: "MultiGraph \<Rightarrow> (name \<times> name) list" where
  "edges G =
     concat (map (\<lambda>src. map (\<lambda>dest. (src, dest)) (the (dict_get (data G) src)))
                 (dict_keys (data G)))"

section \<open>Topo\<close>

record Topo =
  g :: MultiGraph
  node_info :: "(name, opts option) dict"
  link_info :: "(name \<times> name, opts) dict"
  hopts :: opts
  sopts :: opts
  lopts :: opts
  lropts :: opts
  lsopts :: opts
  tpropts :: opts
  hiopts :: opts
  ports :: "(name, (name, int) dict) dict"

definition or_empty :: "opts option \<Rightarrow> opts" where
  "or_empty x = (case x of None \<Rightarrow> [] | Some d \<Rightarrow> d)"

definition Topo_init ::
  "opts option \<Rightarrow> opts option \<Rightarrow> opts option \<Rightarrow> opts option \<Rightarrow> opts option \<Rightarrow>
   opts option \<Rightarrow> opts option \<Rightarrow> Topo" where
  "Topo_init h s l lr ls tpr hi =
     \<lparr>g = MultiGraph_init, node_info = [], link_info = [],
      hopts = or_empty h, sopts = or_empty s, lopts = or_empty l, lropts = or_empty lr,
      lsopts = or_empty ls, tpropts = or_empty tpr, hiopts = or_empty hi, ports = []\<rparr>"

definition Topo_new :: Topo where
  \<comment> \<open>\<open>Topo()\<close>: every default left at None.\<close>
  "Topo_new = Topo_init None None None None None None None"

definition addNode :: "name \<Rightarrow> opts \<Rightarrow> Topo \<Rightarrow> name \<times> Topo" where
  "addNode name1 kw t =
     (name1, t\<lparr>g := add_node name1 (g t), node_info := dict_set name1 (Some kw) (node_info t)\<rparr>)"

definition call_addNode :: "name \<Rightarrow> string \<Rightarrow> opts \<Rightarrow> Topo \<Rightarrow> (error + name) \<times> Topo" where
  \<comment> \<open>The call \<open>self.addNode(name, flag=True, **opts)\<close>: Python raises TypeError when a key
      of \<open>opts\<close> repeats the keyword \<open>flag\<close> or names a parameter of addNode.\<close>
  "call_addNode name1 flag kw t =
     (if \<exists>k \<in> set (dict_keys kw). k \<in> {''self'', ''name'', flag} then (Inl TypeError, t)
      else (case addNode name1 ((flag, PyBool True) # kw) t of (r, t1) \<Rightarrow> (Inr r, t1)))"

definition addHost :: "name \<Rightarrow> opts \<Rightarrow> Topo \<Rightarrow> (error + name) \<times> Topo" where
  "addHost name1 kw t =
     call_addNode name1 ''isHost'' (if kw = [] \<and> hopts t \<noteq> [] then hopts t else kw) t"

definition addSwitch :: "name \<Rightarrow> opts \<Rightarrow> Topo \<Rightarrow> (error + name) \<times> Topo" where
  "addSwitch name1 kw t =
     call_addNode name1 ''isSwitch'' (if kw = [] \<and> sopts t \<noteq> [] then sopts t else kw) t"

definition addLegacySwitch :: "name \<Rightarrow> opts \<Rightarrow> Topo \<Rightarrow> (error + name) \<times> Topo" where
  "addLegacySwitch name1 kw t =
     call_addNode name1 ''isLegacySwitch'' (if kw = [] \<and> lsopts t \<noteq> [] then lsopts t else kw) t"

definition addHostInterface :: "name \<Rightarrow> opts \<Rightarrow> Topo \<Rightarrow> (error + name) \<times> Topo" where
  "addHostInterface name1 kw t =
     call_addNode name1 ''isHostInterface'' (if kw = [] \<and> hiopts t \<noteq> [] then hiopts t else kw) t"

definition addLegacyRouter :: "name \<Rightarrow> opts \<Rightarrow> Topo \<Rightarrow> (error + name) \<times> Topo" where
  "addLegacyRouter name1 kw t =
     call_addNode name1 ''isLegacyRouter'' (if kw = [] \<and> lropts t \<noteq> [] then lropts t else kw) t"

definition addTransitPortalRouter :: "name \<Rightarrow> opts \<Rightarrow> Topo \<Rightarrow> (error + name) \<times> Topo" where
  "addTransitPortalRouter name1 kw t =
     call_addNode name1 ''isTransitPortalRouter''
       (if kw = [] \<and> tpropts t \<noteq> [] then tpropts t else kw) t"

definition isSwitch :: "name \<Rightarrow> Topo \<Rightarrow> error + bool" where
  \<comment> \<open>\<open>info and info.get('isSwitch', False)\<close>, read for its truth value as every caller does.\<close>
  "isSwitch n t =
     (case dict_get (node_info t) n of
        None \<Rightarrow> Inl KeyError
      | Some info \<Rightarrow>
          Inr (case info of
                 None \<Rightarrow> False
               | Some d \<Rightarrow> d \<noteq> [] \<and> (case dict_get d ''isSwitch'' of None \<Rightarrow> False
                                      | Some v \<Rightarrow> truthy v)))"

definition Topo_sorted :: "name list \<Rightarrow> name list" where
  "Topo_sorted items = sort_key natural items"

definition port_cell :: "(name, (name, int) dict) dict \<Rightarrow> name \<Rightarrow> name \<Rightarrow> int option" where
  \<comment> \<open>\<open>ports[a][b]\<close> when \<open>a in ports and b in ports[a]\<close>.\<close>
  "port_cell ps a b = (case dict_get ps a of None \<Rightarrow> None | Some tbl \<Rightarrow> dict_get tbl b)"

definition port_store ::
  "name \<Rightarrow> name \<Rightarrow> int \<Rightarrow> (name, (name, int) dict) dict \<Rightarrow> (name, (name, int) dict) dict" where
  \<comment> \<open>\<open>ports[a][b] = p\<close>; \<open>ports[a]\<close> exists wherever addPort stores.\<close>
  "port_store a b p ps = dict_set a (dict_set b p (the (dict_get ps a))) ps"

definition addPort ::
  "name \<Rightarrow> name \<Rightarrow> int option \<Rightarrow> int option \<Rightarrow> Topo \<Rightarrow> (error + unit) \<times> Topo" where
  "addPort src dst sport dport t =
     (let t1 = t\<lparr>ports := dict_setdefault dst [] (dict_setdefault src [] (ports t))\<rparr> in
      case isSwitch src t1 of
        Inl e \<Rightarrow> (Inl e, t1)
      | Inr src_sw \<Rightarrow>
         (case isSwitch dst t1 of
            Inl e \<Rightarrow> (Inl e, t1)
          | Inr dst_sw \<Rightarrow>
             (let src_base = (if src_sw then 1 else 0);
                  dst_base = (if dst_sw then 1 else 0);
                  sport1 = (case sport of
                              None \<Rightarrow> int (dict_len (the (dict_get (ports t1) src))) + src_base
                            | Some p \<Rightarrow> p);
                  dport1 = (case dport of
                              None \<Rightarrow> int (dict_len (the (dict_get (ports t1) dst))) + dst_base
                            | Some p \<Rightarrow> p);
                  t2 = t1\<lparr>ports := port_store src dst sport1 (ports t1)\<rparr>;
                  t3 = t2\<lparr>ports := port_store dst src dport1 (ports t2)\<rparr>
              in (Inr (), t3))))"

definition addLink ::
  "name \<Rightarrow> name \<Rightarrow> int option \<Rightarrow> int option \<Rightarrow> opts \<Rightarrow> Topo \<Rightarrow>
   (error + name \<times> name) \<times> Topo" where
  "addLink node1 node2 port1 port2 kw t =
     (let kw1 = (if kw = [] \<and> lopts t \<noteq> [] then lopts t else kw) in
      case addPort node1 node2 port1 port2 t of
        (Inl e, t1) \<Rightarrow> (Inl e, t1)
      | (Inr u, t1) \<Rightarrow>
         (let key = tuple2 (Topo_sorted [node1, node2]);
              t2 = t1\<lparr>link_info := dict_set key kw1 (link_info t1)\<rparr>;
              t3 = t2\<lparr>g := add_edge (fst key) (snd key) (g t2)\<rparr>
          in (Inr key, t3)))"

definition links :: "bool \<Rightarrow> Topo \<Rightarrow> (name \<times> name) list" where
  "links sort1 t =
     (if \<not> sort1 then edges (g t)
      else sort_key naturalSeq (map (\<lambda>e. tuple2 (Topo_sorted [fst e, snd e])) (edges (g t))))"

definition port :: "name \<Rightarrow> name \<Rightarrow> Topo \<Rightarrow> error + (int \<times> int) option" where
  \<comment> \<open>\<open>Inr None\<close> is Python's None, returned when the \<open>if\<close> falls through.\<close>
  "port src dst t =
     (case port_cell (ports t) src dst of
        None \<Rightarrow> Inr None
      | Some sp \<Rightarrow>
         (case port_cell (ports t) dst src of
            None \<Rightarrow> Inl AssertionError
          | Some dp \<Rightarrow> Inr (Some (sp, dp))))"

definition linkInfo :: "name \<Rightarrow> name \<Rightarrow> Topo \<Rightarrow> error + opts" where
  "linkInfo src dst t =
     (case dict_get (link_info t) (tuple2 (Topo_sorted [src, dst])) of
        None \<Rightarrow> Inl KeyError
      | Some info \<Rightarrow> Inr info)"

definition setlinkInfo :: "name \<Rightarrow> name \<Rightarrow> opts \<Rightarrow> Topo \<Rightarrow> Topo" where
  "setlinkInfo src dst info t =
     t\<lparr>link_info := dict_set (tuple2 (Topo_sorted [src, dst])) info (link_info t)\<rparr>"

definition nodeInfo :: "name \<Rightarrow> Topo \<Rightarrow> error + opts" where
  "nodeInfo name1 t =
     (case dict_get (node_info t) name1 of
        None \<Rightarrow> Inl KeyError
      | Some info \<Rightarrow> Inr (case info of None \<Rightarrow> [] | Some d \<Rightarrow> d))"

definition setNodeInfo :: "name \<Rightarrow> opts option \<Rightarrow> Topo \<Rightarrow> Topo" where
  "setNodeInfo name1 info t = t\<lparr>node_info := dict_set name1 info (node_info t)\<rparr>"

section \<open>Sequences of calls\<close>

text \<open>
  The mutating calls of the public API. \<open>apply_call\<close> is the object after the call, also
  when the call raised: an exception leaves behind whatever was written before it.
\<close>

datatype call =
    AddNode name opts
  | AddHost name opts
  | AddSwitch name opts
  | AddLegacySwitch name opts
  | AddHostInterface name opts
  | AddLegacyRouter name opts
  | AddTransitPortalRouter name opts
  | AddLink name name "int option" "int option" opts
  | SetLinkInfo name name opts
  | SetNodeInfo name "opts option"

fun apply_call :: "call \<Rightarrow> Topo \<Rightarrow> Topo" where
  "apply_call (AddNode n kw) t = snd (addNode n kw t)"
| "apply_call (AddHost n kw) t = snd (addHost n kw t)"
| "apply_call (AddSwitch n kw) t = snd (addSwitch n kw t)"
| "apply_call (AddLegacySwitch n kw) t = snd (addLegacySwitch n kw t)"
| "apply_call (AddHostInterface n kw) t = snd (addHostInterface n kw t)"
| "apply_call (AddLegacyRouter n kw) t = snd (addLegacyRouter n kw t)"
| "apply_call (AddTransitPortalRouter n kw) t = snd (addTransitPortalRouter n kw t)"
| "apply_call (AddLink a b p1 p2 kw) t = snd (addLink a b p1 p2 kw t)"
| "apply_call (SetLinkInfo a b info) t = setlinkInfo a b info t"
| "apply_call (SetNodeInfo n info) t = setNodeInfo n info t"

definition run :: "call list \<Rightarrow> Topo \<Rightarrow> Topo" where
  "run cs t = fold apply_call cs t"

definition reachable :: "Topo \<Rightarrow> bool" where
  "reachable t = (\<exists>cs h s l lr ls tpr hi. t = run cs (Topo_init h s l lr ls tpr hi))"

section \<open>Notions used by the properties\<close>

definition new_port :: "name \<Rightarrow> int option \<Rightarrow> Topo \<Rightarrow> int" where
  \<comment> \<open>The port addPort settles on for endpoint \<open>n\<close>, from the state before the call: the
      explicit port, or the size of the endpoint's table plus its base.\<close>
  "new_port n p t =
     (case p of
        Some q \<Rightarrow> q
      | None \<Rightarrow> int (dict_len (case dict_get (ports t) n of None \<Rightarrow> [] | Some tbl \<Rightarrow> tbl))
                + (if isSwitch n t = Inr True then 1 else 0))"

definition port_sym :: "Topo \<Rightarrow> bool" where
  "port_sym t = (\<forall>a b. port_cell (ports t) a b \<noteq> None \<longrightarrow> port_cell (ports t) b a \<noteq> None)"

definition link_recorded :: "Topo \<Rightarrow> name \<Rightarrow> name \<Rightarrow> bool" where
  \<comment> \<open>The edge store holds an edge between a and b (in its own canonical form).\<close>
  "link_recorded t a b = ((min a b, max a b) \<in> set (edges (g t)))"

definition ports_match_edges :: "Topo \<Rightarrow> bool" where
  "ports_match_edges t = (\<forall>a b. port_cell (ports t) a b \<noteq> None \<longleftrightarrow> link_recorded t a b)"

definition adj :: "MultiGraph \<Rightarrow> name \<Rightarrow> name list" where
  "adj G n = (case dict_get (data G) n of None \<Rightarrow> [] | Some l \<Rightarrow> l)"

fun links_pair :: "call \<Rightarrow> name \<Rightarrow> name \<Rightarrow> bool" where
  "links_pair (AddLink x y p1 p2 kw) a b = ((x = a \<and> y = b) \<or> (x = b \<and> y = a))"
| "links_pair c a b = False"

definition link_opts :: "opts \<Rightarrow> Topo \<Rightarrow> opts" where
  \<comment> \<open>The options addLink stores: the default link options when none are given.\<close>
  "link_opts kw t = (if kw = [] \<and> lopts t \<noteq> [] then lopts t else kw)"

section \<open>Dictionaries\<close>

lemmas dict_eval = dict_get_def dict_has_def dict_setdefault_def dict_keys_def dict_len_def

lemmas node_eval =
  Topo_new_def Topo_init_def MultiGraph_init_def or_empty_def run_def addNode_def
  call_addNode_def addHost_def addSwitch_def addLegacySwitch_def addHostInterface_def
  addLegacyRouter_def addTransitPortalRouter_def add_node_def setNodeInfo_def

lemmas natural_eval = natural_def naturalSeq_def digit_runs.simps is_digit_def int_of_digits_def
  Topo_sorted_def

lemmas link_eval =
  addLink_def addPort_def isSwitch_def port_store_def port_cell_def port_def add_edge_def
  linkInfo_def setlinkInfo_def

lemma dict_get_Nil [simp]: "dict_get [] k = None"
  by (simp add: dict_get_def)

lemma dict_get_set [simp]:
  "dict_get (dict_set k v d) k' = (if k' = k then Some v else dict_get d k')"
  by (induction d) (auto simp: dict_get_def)

lemma dict_get_setdefault:
  "dict_get (dict_setdefault k v d) k' =
     (if k' = k \<and> dict_get d k = None then Some v else dict_get d k')"
  by (auto simp: dict_setdefault_def dict_has_def)

lemma set_dict_keys: "set (dict_keys d) = fst ` set d"
  by (simp add: dict_keys_def)

lemma dict_keys_distinct: "distinct (map fst d) \<Longrightarrow> dict_keys d = map fst d"
  by (simp add: dict_keys_def)

lemma dict_get_None_iff: "dict_get d k = None \<longleftrightarrow> k \<notin> set (dict_keys d)"
  by (simp add: dict_get_def dict_keys_def map_of_eq_None_iff)

lemma fst_set_dict_set: "fst ` set (dict_set k v d) = insert k (fst ` set d)"
  by (induction d) auto

lemma set_dict_keys_set [simp]: "set (dict_keys (dict_set k v d)) = insert k (set (dict_keys d))"
  by (simp add: set_dict_keys fst_set_dict_set)

lemma set_dict_keys_setdefault:
  "set (dict_keys (dict_setdefault k v d)) = insert k (set (dict_keys d))"
  by (auto simp: dict_setdefault_def dict_has_def dict_get_None_iff)

lemma distinct_dict_keys [simp]: "distinct (dict_keys d)"
  by (simp add: dict_keys_def)

lemma dict_len_card: "dict_len d = card (set (dict_keys d))"
  by (simp add: dict_len_def dict_keys_def length_remdups_card_conv)

lemma dict_len_set:
  "dict_len (dict_set k v d) = (if dict_has d k then dict_len d else Suc (dict_len d))"
  by (auto simp: dict_len_card dict_has_def dict_get_None_iff insert_absorb)

lemma dict_set_twice: "dict_set k v (dict_set k w d) = dict_set k v d"
  by (induction d) auto

section \<open>Port tables\<close>

lemma port_cell_setdefault [simp]: "port_cell (dict_setdefault k [] ps) a b = port_cell ps a b"
  by (auto simp: port_cell_def dict_get_setdefault split: option.splits)

lemma port_cell_store:
  "dict_get ps a \<noteq> None \<Longrightarrow>
   port_cell (port_store a b p ps) x y = (if x = a \<and> y = b then Some p else port_cell ps x y)"
  by (auto simp: port_cell_def port_store_def split: option.splits)

lemma isSwitch_ports [simp]: "isSwitch n (t\<lparr>ports := ps\<rparr>) = isSwitch n t"
  by (simp add: isSwitch_def)

lemma isSwitch_None: "dict_get (node_info t) n = None \<Longrightarrow> isSwitch n t = Inl KeyError"
  by (simp add: isSwitch_def)

lemma isSwitch_Some: "dict_get (node_info t) n \<noteq> None \<Longrightarrow> \<exists>b. isSwitch n t = Inr b"
  by (auto simp: isSwitch_def split: option.splits)

lemma addPort_fail:
  assumes "dict_get (node_info t) src = None \<or> dict_get (node_info t) dst = None"
  shows "addPort src dst sp dp t =
     (Inl KeyError, t\<lparr>ports := dict_setdefault dst [] (dict_setdefault src [] (ports t))\<rparr>)"
proof (cases "dict_get (node_info t) src")
  case None
  then show ?thesis by (simp add: addPort_def Let_def isSwitch_None)
next
  case (Some i)
  then have "dict_get (node_info t) dst = None" using assms by simp
  moreover obtain b where "isSwitch src t = Inr b"
    using Some isSwitch_Some [of t src] by auto
  ultimately show ?thesis by (simp add: addPort_def Let_def isSwitch_None)
qed

lemma addPort_ok:
  assumes "dict_get (node_info t) src \<noteq> None" "dict_get (node_info t) dst \<noteq> None"
  shows "\<exists>ps. addPort src dst sp dp t = (Inr (), t\<lparr>ports := ps\<rparr>) \<and>
     (\<forall>x y. port_cell ps x y =
        (if x = dst \<and> y = src then Some (new_port dst dp t)
         else if x = src \<and> y = dst then Some (new_port src sp t)
         else port_cell (ports t) x y))"
proof -
  let ?ps1 = "dict_setdefault dst [] (dict_setdefault src [] (ports t))"
  obtain b1 b2 where b: "isSwitch src t = Inr b1" "isSwitch dst t = Inr b2"
    using assms isSwitch_Some by blast
  have h1: "dict_get ?ps1 src \<noteq> None" "dict_get ?ps1 dst \<noteq> None"
    by (auto simp: dict_get_setdefault)
  have l1: "the (dict_get ?ps1 src) = (case dict_get (ports t) src of None \<Rightarrow> [] | Some tbl \<Rightarrow> tbl)"
    by (auto simp: dict_get_setdefault split: option.splits)
  have l2: "the (dict_get ?ps1 dst) = (case dict_get (ports t) dst of None \<Rightarrow> [] | Some tbl \<Rightarrow> tbl)"
    by (auto simp: dict_get_setdefault split: option.splits)
  let ?s = "new_port src sp t" and ?d = "new_port dst dp t"
  have s: "(case sp of
              None \<Rightarrow> int (dict_len (the (dict_get (ports (t\<lparr>ports := ?ps1\<rparr>)) src)))
                      + (if b1 then 1 else 0)
            | Some p \<Rightarrow> p) = ?s"
    using b by (auto simp: new_port_def l1 split: option.splits)
  have d: "(case dp of
              None \<Rightarrow> int (dict_len (the (dict_get (ports (t\<lparr>ports := ?ps1\<rparr>)) dst)))
                      + (if b2 then 1 else 0)
            | Some p \<Rightarrow> p) = ?d"
    using b by (auto simp: new_port_def l2 split: option.splits)
  let ?ps2 = "port_store src dst ?s ?ps1"
  let ?ps3 = "port_store dst src ?d ?ps2"
  have h2: "dict_get ?ps2 dst \<noteq> None"
    using h1 by (simp add: port_store_def)
  have eq: "addPort src dst sp dp t = (Inr (), t\<lparr>ports := ?ps3\<rparr>)"
    by (simp add: addPort_def Let_def b s d split del: if_split)
  have "port_cell ?ps3 x y =
        (if x = dst \<and> y = src then Some ?d
         else if x = src \<and> y = dst then Some ?s
         else port_cell (ports t) x y)" for x y
    by (simp add: port_cell_store [OF h2] port_cell_store [OF h1(1)])
  with eq show ?thesis by blast
qed

section \<open>addLink\<close>

lemma tuple2_Topo_sorted:
  "tuple2 (Topo_sorted [a, b]) = (if natural a \<le> natural b then (a, b) else (b, a))"
  by (simp add: Topo_sorted_def)

lemma tuple2_sort: "tuple2 (sort [a, b]) = (min a b, max a b)"
  by (auto simp: min_def max_def)

lemma addLink_fail:
  assumes "dict_get (node_info t) a = None \<or> dict_get (node_info t) b = None"
  shows "addLink a b p1 p2 kw t =
     (Inl KeyError, t\<lparr>ports := dict_setdefault b [] (dict_setdefault a [] (ports t))\<rparr>)"
  by (simp add: addLink_def addPort_fail [OF assms])

lemma addLink_ok:
  assumes "dict_get (node_info t) a \<noteq> None" "dict_get (node_info t) b \<noteq> None"
  shows "\<exists>ps. addLink a b p1 p2 kw t =
       (Inr (tuple2 (Topo_sorted [a, b])),
        t\<lparr>ports := ps,
          link_info := dict_set (tuple2 (Topo_sorted [a, b])) (link_opts kw t) (link_info t),
          g := add_edge a b (g t)\<rparr>) \<and>
     (\<forall>x y. port_cell ps x y =
        (if x = b \<and> y = a then Some (new_port b p2 t)
         else if x = a \<and> y = b then Some (new_port a p1 t)
         else port_cell (ports t) x y))"
proof -
  obtain ps where ps: "addPort a b p1 p2 t = (Inr (), t\<lparr>ports := ps\<rparr>)"
    and cells: "\<forall>x y. port_cell ps x y =
        (if x = b \<and> y = a then Some (new_port b p2 t)
         else if x = a \<and> y = b then Some (new_port a p1 t)
         else port_cell (ports t) x y)"
    using addPort_ok [OF assms, of p1 p2] by blast
  have e: "add_edge (fst (tuple2 (Topo_sorted [a, b]))) (snd (tuple2 (Topo_sorted [a, b]))) G
             = add_edge a b G" for G
    by (auto simp: tuple2_Topo_sorted add_edge_def tuple2_sort min.commute max.commute)
  have "addLink a b p1 p2 kw t =
       (Inr (tuple2 (Topo_sorted [a, b])),
        t\<lparr>ports := ps,
          link_info := dict_set (tuple2 (Topo_sorted [a, b])) (link_opts kw t) (link_info t),
          g := add_edge a b (g t)\<rparr>)"
    by (simp add: addLink_def ps Let_def e link_opts_def)
  with cells show ?thesis by blast
qed

section \<open>Calls and the port table\<close>

lemma addLink_cells:
  "port_cell (ports (snd (addLink x y p1 p2 kw t))) u v =
     (if dict_has (node_info t) x \<and> dict_has (node_info t) y then
        (if u = y \<and> v = x then Some (new_port y p2 t)
         else if u = x \<and> v = y then Some (new_port x p1 t)
         else port_cell (ports t) u v)
      else port_cell (ports t) u v)"
proof (cases "dict_has (node_info t) x \<and> dict_has (node_info t) y")
  case True
  then have h: "dict_get (node_info t) x \<noteq> None" "dict_get (node_info t) y \<noteq> None"
    by (simp_all add: dict_has_def)
  from addLink_ok [OF h, of p1 p2 kw] obtain ps where
    eq: "snd (addLink x y p1 p2 kw t) =
        t\<lparr>ports := ps,
          link_info := dict_set (tuple2 (Topo_sorted [x, y])) (link_opts kw t) (link_info t),
          g := add_edge x y (g t)\<rparr>"
    and cells: "\<And>u v. port_cell ps u v =
        (if u = y \<and> v = x then Some (new_port y p2 t)
         else if u = x \<and> v = y then Some (new_port x p1 t)
         else port_cell (ports t) u v)"
    by fastforce
  have p: "ports (snd (addLink x y p1 p2 kw t)) = ps" by (simp add: eq)
  have "(dict_has (node_info t) x \<and> dict_has (node_info t) y) = True"
    using True by blast
  then show ?thesis by (simp only: p cells if_True)
next
  case False
  then have "dict_get (node_info t) x = None \<or> dict_get (node_info t) y = None"
    by (auto simp: dict_has_def)
  from addLink_fail [OF this, of p1 p2 kw]
  have "ports (snd (addLink x y p1 p2 kw t)) = dict_setdefault y [] (dict_setdefault x [] (ports t))"
    by simp
  moreover have "(dict_has (node_info t) x \<and> dict_has (node_info t) y) = False"
    using False by blast
  ultimately show ?thesis by (simp only: if_False port_cell_setdefault)
qed

lemma addLink_node_info [simp]: "node_info (snd (addLink x y p1 p2 kw t)) = node_info t"
proof (cases "dict_get (node_info t) x = None \<or> dict_get (node_info t) y = None")
  case True
  from addLink_fail [OF this, of p1 p2 kw] show ?thesis by simp
next
  case False
  then have h: "dict_get (node_info t) x \<noteq> None" "dict_get (node_info t) y \<noteq> None" by auto
  from addLink_ok [OF h, of p1 p2 kw] obtain ps where
    "addLink x y p1 p2 kw t =
       (Inr (tuple2 (Topo_sorted [x, y])),
        t\<lparr>ports := ps,
          link_info := dict_set (tuple2 (Topo_sorted [x, y])) (link_opts kw t) (link_info t),
          g := add_edge x y (g t)\<rparr>)" by blast
  then show ?thesis by simp
qed

lemma call_addNode_ports [simp]: "ports (snd (call_addNode n flag kw t)) = ports t"
  by (simp add: call_addNode_def addNode_def)

lemma call_addNode_has:
  "dict_has (node_info t) m \<Longrightarrow> dict_has (node_info (snd (call_addNode n flag kw t))) m"
  by (simp add: call_addNode_def addNode_def dict_has_def)

lemma apply_call_ports:
  "\<forall>x y p1 p2 kw. c \<noteq> AddLink x y p1 p2 kw \<Longrightarrow> ports (apply_call c t) = ports t"
  by (cases c)
     (simp_all add: addNode_def addHost_def addSwitch_def addLegacySwitch_def
        addHostInterface_def addLegacyRouter_def addTransitPortalRouter_def
        setlinkInfo_def setNodeInfo_def)

lemma apply_call_has:
  "dict_has (node_info t) m \<Longrightarrow> dict_has (node_info (apply_call c t)) m"
  by (cases c)
     (simp_all add: addNode_def addHost_def addSwitch_def addLegacySwitch_def
        addHostInterface_def addLegacyRouter_def addTransitPortalRouter_def
        setlinkInfo_def setNodeInfo_def call_addNode_has, simp_all add: dict_has_def)

lemma apply_call_frame:
  "\<not> links_pair c a b \<Longrightarrow> port_cell (ports (apply_call c t)) a b = port_cell (ports t) a b"
proof (cases "\<exists>x y p1 p2 kw. c = AddLink x y p1 p2 kw")
  case True
  then obtain x y p1 p2 kw where c: "c = AddLink x y p1 p2 kw" by blast
  assume "\<not> links_pair c a b"
  then have "(a = y \<and> b = x) = False" "(a = x \<and> b = y) = False" unfolding c by auto
  then show ?thesis unfolding c apply_call.simps addLink_cells by (simp only: if_False if_cancel)
next
  case False
  then show ?thesis by (simp add: apply_call_ports)
qed


lemma run_frame:
  "\<forall>c \<in> set cs. \<not> links_pair c a b \<Longrightarrow> port_cell (ports (run cs t)) a b = port_cell (ports t) a b"
  unfolding run_def by (induction cs arbitrary: t) (simp_all add: apply_call_frame)

lemma run_has: "dict_has (node_info t) m \<Longrightarrow> dict_has (node_info (run cs t)) m"
  unfolding run_def by (induction cs arbitrary: t) (simp_all add: apply_call_has)

lemma links_pair_sym: "links_pair c b a = links_pair c a b"
  by (cases c) auto

lemma addLink_port_sym: "port_sym t \<Longrightarrow> port_sym (snd (addLink x y p1 p2 kw t))"
  unfolding port_sym_def addLink_cells by (simp split: if_splits)

lemma apply_call_port_sym: "port_sym t \<Longrightarrow> port_sym (apply_call c t)"
proof (cases "\<exists>x y p1 p2 kw. c = AddLink x y p1 p2 kw")
  case True
  then obtain x y p1 p2 kw where c: "c = AddLink x y p1 p2 kw" by blast
  assume "port_sym t"
  then show ?thesis by (simp add: c addLink_port_sym)
next
  case False
  assume "port_sym t"
  with False show ?thesis by (simp add: port_sym_def apply_call_ports)
qed

lemma run_port_sym: "port_sym t \<Longrightarrow> port_sym (run cs t)"
  unfolding run_def by (induction cs arbitrary: t) (simp_all add: apply_call_port_sym)

lemma init_port_sym: "port_sym (Topo_init h s l lr ls tpr hi)"
  by (simp add: port_sym_def Topo_init_def port_cell_def)

section \<open>Properties of addLink and port\<close>

lemma port_of_cells:
  "port_cell (ports t) a b = Some p \<Longrightarrow> port_cell (ports t) b a = Some q \<Longrightarrow>
   port a b t = Inr (Some (p, q))"
  by (simp add: port_def)

text \<open>
  C9. addLink with an endpoint that was never added raises the lookup failure of the role
  lookup and leaves a half-done object: both endpoints have a port table (an empty one
  where there was none), no edge is in the store and no link metadata is stored.
\<close>

theorem addLink_unknown_endpoint:
  assumes "\<not> dict_has (node_info t) node1 \<or> \<not> dict_has (node_info t) node2"
  shows "fst (addLink node1 node2 port1 port2 kw t) = Inl KeyError \<and>
         g (snd (addLink node1 node2 port1 port2 kw t)) = g t \<and>
         link_info (snd (addLink node1 node2 port1 port2 kw t)) = link_info t \<and>
         node_info (snd (addLink node1 node2 port1 port2 kw t)) = node_info t \<and>
         dict_has (ports (snd (addLink node1 node2 port1 port2 kw t))) node1 \<and>
         dict_has (ports (snd (addLink node1 node2 port1 port2 kw t))) node2 \<and>
         (\<forall>n. dict_get (ports (snd (addLink node1 node2 port1 port2 kw t))) n =
                (if (n = node1 \<or> n = node2) \<and> \<not> dict_has (ports t) n then Some []
                 else dict_get (ports t) n))"
proof -
  have "dict_get (node_info t) node1 = None \<or> dict_get (node_info t) node2 = None"
    using assms by (simp add: dict_has_def)
  from addLink_fail [OF this, of port1 port2 kw]
  have eq: "addLink node1 node2 port1 port2 kw t =
     (Inl KeyError, t\<lparr>ports := dict_setdefault node2 [] (dict_setdefault node1 [] (ports t))\<rparr>)" .
  show ?thesis unfolding eq by (auto simp: dict_has_def dict_get_setdefault)
qed

theorem addLink_unknown_endpoint_witness:
  "\<not> dict_has (node_info Topo_new) ''h1'' \<and>
   fst (addLink ''h1'' ''s1'' None None [] Topo_new) = Inl KeyError \<and>
   g (snd (addLink ''h1'' ''s1'' None None [] Topo_new)) = g Topo_new \<and>
   link_info (snd (addLink ''h1'' ''s1'' None None [] Topo_new)) = [] \<and>
   dict_get (ports (snd (addLink ''h1'' ''s1'' None None [] Topo_new))) ''h1'' = Some [] \<and>
   dict_get (ports (snd (addLink ''h1'' ''s1'' None None [] Topo_new))) ''s1'' = Some []"
proof -
  have h: "\<not> dict_has (node_info Topo_new) ''h1''"
    by (simp add: Topo_new_def Topo_init_def dict_has_def)
  have p: "\<not> dict_has (ports Topo_new) ''h1''" "\<not> dict_has (ports Topo_new) ''s1''"
    by (simp_all add: Topo_new_def Topo_init_def dict_has_def)
  have l: "link_info Topo_new = []"
    by (simp add: Topo_new_def Topo_init_def)
  from addLink_unknown_endpoint [of Topo_new "''h1''" "''s1''" None None "[]"] h
  have "fst (addLink ''h1'' ''s1'' None None [] Topo_new) = Inl KeyError"
    "g (snd (addLink ''h1'' ''s1'' None None [] Topo_new)) = g Topo_new"
    "link_info (snd (addLink ''h1'' ''s1'' None None [] Topo_new)) = link_info Topo_new"
    "\<And>n. dict_get (ports (snd (addLink ''h1'' ''s1'' None None [] Topo_new))) n =
                (if (n = ''h1'' \<or> n = ''s1'') \<and> \<not> dict_has (ports Topo_new) n then Some []
                 else dict_get (ports Topo_new) n)"
    by blast+
  with h p l show ?thesis by simp
qed

text \<open>
  C10. A self-loop keeps one cell: after addLink(n, n, port1=p1, port2=p2) on a node that
  was added, \<open>ports[n][n]\<close> holds the later assignment p2 and port(n, n) is (p2, p2).
\<close>

theorem self_loop_keeps_second_port:
  assumes "dict_has (node_info t) n"
  shows "fst (addLink n n (Some p1) (Some p2) kw t) = Inr (n, n) \<and>
         port_cell (ports (snd (addLink n n (Some p1) (Some p2) kw t))) n n = Some p2 \<and>
         port n n (snd (addLink n n (Some p1) (Some p2) kw t)) = Inr (Some (p2, p2))"
proof -
  have h: "dict_get (node_info t) n \<noteq> None" using assms by (simp add: dict_has_def)
  from addLink_ok [OF h h, of "Some p1" "Some p2" kw]
  have r: "fst (addLink n n (Some p1) (Some p2) kw t) = Inr (n, n)"
    by (auto simp: tuple2_Topo_sorted)
  have c: "port_cell (ports (snd (addLink n n (Some p1) (Some p2) kw t))) n n = Some p2"
    using assms by (simp add: addLink_cells new_port_def)
  from r c port_of_cells [OF c c] show ?thesis by simp
qed

theorem self_loop_keeps_second_port_witness:
  "dict_has (node_info (snd (addNode ''s1'' [] Topo_new))) ''s1'' \<and>
   port ''s1'' ''s1'' (snd (addLink ''s1'' ''s1'' (Some 4) (Some 7) []
       (snd (addNode ''s1'' [] Topo_new)))) = Inr (Some (7, 7))"
proof -
  have h: "dict_has (node_info (snd (addNode ''s1'' [] Topo_new))) ''s1''"
    by (simp add: addNode_def dict_has_def)
  from h self_loop_keeps_second_port [OF h, of 4 7 "[]"] show ?thesis by simp
qed

text \<open>
  C8, as stated, fails for a name that was never added: the lookup in \<open>node_info\<close>
  raises KeyError before the None test is reached.
\<close>

theorem nodeInfo_absent_counterexample:
  "nodeInfo ''h1'' Topo_new = Inl KeyError \<and> nodeInfo ''h1'' Topo_new \<noteq> Inr []"
  by (simp add: nodeInfo_def Topo_new_def Topo_init_def)

text \<open>
  C8, amended. For a name with an entry in \<open>node_info\<close>, nodeInfo returns the empty
  mapping when the stored metadata is None and the stored mapping otherwise; for a name
  with no entry it raises KeyError. setNodeInfo(name, info) replaces (or creates) the
  entry of \<open>name\<close> with \<open>info\<close> and leaves every other entry alone.
\<close>

theorem nodeInfo_setNodeInfo:
  "(dict_get (node_info t) n = Some None \<longrightarrow> nodeInfo n t = Inr []) \<and>
   (\<forall>d. dict_get (node_info t) n = Some (Some d) \<longrightarrow> nodeInfo n t = Inr d) \<and>
   (dict_get (node_info t) n = None \<longrightarrow> nodeInfo n t = Inl KeyError) \<and>
   dict_get (node_info (setNodeInfo n info t)) m = (if m = n then Some info else dict_get (node_info t) m) \<and>
   nodeInfo n (setNodeInfo n info t) = Inr (case info of None \<Rightarrow> [] | Some d \<Rightarrow> d)"
  by (simp add: nodeInfo_def setNodeInfo_def)

theorem nodeInfo_setNodeInfo_witness:
  "dict_get (node_info (setNodeInfo ''h1'' None Topo_new)) ''h1'' = Some None \<and>
   nodeInfo ''h1'' (setNodeInfo ''h1'' None Topo_new) = Inr [] \<and>
   dict_get (node_info (setNodeInfo ''h1'' (Some [(''cpu'', PyInt 2)]) Topo_new)) ''h1''
     = Some (Some [(''cpu'', PyInt 2)]) \<and>
   nodeInfo ''h1'' (setNodeInfo ''h1'' (Some [(''cpu'', PyInt 2)]) Topo_new) = Inr [(''cpu'', PyInt 2)] \<and>
   dict_get (node_info Topo_new) ''h1'' = None \<and>
   nodeInfo ''h1'' Topo_new = Inl KeyError"
proof -
  have a: "dict_get (node_info (setNodeInfo ''h1'' None Topo_new)) ''h1'' = Some None"
    by (simp add: setNodeInfo_def)
  have b: "dict_get (node_info (setNodeInfo ''h1'' (Some [(''cpu'', PyInt 2)]) Topo_new)) ''h1''
     = Some (Some [(''cpu'', PyInt 2)])"
    by (simp add: setNodeInfo_def)
  have c: "dict_get (node_info Topo_new) ''h1'' = None"
    by (simp add: Topo_new_def Topo_init_def)
  from a b c
    nodeInfo_setNodeInfo [of "setNodeInfo ''h1'' None Topo_new" "''h1''"]
    nodeInfo_setNodeInfo [of "setNodeInfo ''h1'' (Some [(''cpu'', PyInt 2)]) Topo_new" "''h1''"]
    nodeInfo_setNodeInfo [of Topo_new "''h1''"]
  show ?thesis by blast
qed

text \<open>
  C4. For distinct added nodes A and B, after addLink(A, B, port1=p1, port2=p2) and any
  further calls that add no other link between A and B, port(A, B) is (p1, p2) and
  port(B, A) is (p2, p1).
\<close>

theorem explicit_ports_both_directions:
  assumes "A \<noteq> B" and "dict_has (node_info t) A" and "dict_has (node_info t) B"
    and "\<forall>c \<in> set cs. \<not> links_pair c A B"
  shows "port A B (run cs (snd (addLink A B (Some p1) (Some p2) kw t))) = Inr (Some (p1, p2)) \<and>
         port B A (run cs (snd (addLink A B (Some p1) (Some p2) kw t))) = Inr (Some (p2, p1))"
proof -
  let ?t1 = "snd (addLink A B (Some p1) (Some p2) kw t)"
  have ab: "port_cell (ports ?t1) A B = Some p1"
    using assms(1-3) by (simp add: addLink_cells new_port_def)
  have ba: "port_cell (ports ?t1) B A = Some p2"
    using assms(1-3) by (simp add: addLink_cells new_port_def)
  have f: "\<forall>c \<in> set cs. \<not> links_pair c B A"
    using assms(4) by (simp add: links_pair_sym)
  have ab': "port_cell (ports (run cs ?t1)) A B = Some p1"
    using run_frame [OF assms(4)] ab by simp
  have ba': "port_cell (ports (run cs ?t1)) B A = Some p2"
    using run_frame [OF f] ba by simp
  from port_of_cells [OF ab' ba'] port_of_cells [OF ba' ab'] show ?thesis by simp
qed

theorem explicit_ports_both_directions_witness:
  "''h1'' \<noteq> ''s1'' \<and>
   dict_has (node_info (run [AddSwitch ''s1'' [], AddHost ''h1'' []] Topo_new)) ''h1'' \<and>
   dict_has (node_info (run [AddSwitch ''s1'' [], AddHost ''h1'' []] Topo_new)) ''s1'' \<and>
   port ''h1'' ''s1''
     (run [AddHost ''h2'' [], AddLink ''h2'' ''s1'' None None []]
        (snd (addLink ''h1'' ''s1'' (Some 0) (Some 3) []
           (run [AddSwitch ''s1'' [], AddHost ''h1'' []] Topo_new)))) = Inr (Some (0, 3)) \<and>
   port ''s1'' ''h1''
     (run [AddHost ''h2'' [], AddLink ''h2'' ''s1'' None None []]
        (snd (addLink ''h1'' ''s1'' (Some 0) (Some 3) []
           (run [AddSwitch ''s1'' [], AddHost ''h1'' []] Topo_new)))) = Inr (Some (3, 0))"
proof -
  let ?t = "run [AddSwitch ''s1'' [], AddHost ''h1'' []] Topo_new"
  have n: "''h1'' \<noteq> ''s1''" by simp
  have a: "dict_has (node_info ?t) ''h1''"
    by (simp add: node_eval dict_eval)
  have b: "dict_has (node_info ?t) ''s1''"
    by (simp add: node_eval dict_eval)
  have c: "\<forall>c \<in> set [AddHost ''h2'' [], AddLink ''h2'' ''s1'' None None []]. \<not> links_pair c ''h1'' ''s1''"
    by simp
  from n a b explicit_ports_both_directions [OF n a b c, of 0 3 "[]"] show ?thesis by blast
qed

lemma neighbours_card:
  "dict_len (case dict_get ps n of None \<Rightarrow> [] | Some tbl \<Rightarrow> tbl) = card {b. port_cell ps n b \<noteq> None}"
proof -
  have "{b. port_cell ps n b \<noteq> None}
          = set (dict_keys (case dict_get ps n of None \<Rightarrow> [] | Some tbl \<Rightarrow> tbl))"
  proof (cases "dict_get ps n")
    case None
    then show ?thesis by (simp add: port_cell_def dict_keys_def)
  next
    case (Some tbl)
    have "{b. dict_get tbl b \<noteq> None} = set (dict_keys tbl)"
      by (auto simp: dict_get_None_iff)
    then show ?thesis by (simp add: port_cell_def Some)
  qed
  then show ?thesis by (simp add: dict_len_card)
qed

lemma new_port_auto:
  "new_port n None t =
     int (card {b. port_cell (ports t) n b \<noteq> None}) + (if isSwitch n t = Inr True then 1 else 0)"
  by (simp add: new_port_def neighbours_card)

text \<open>
  C1. When addLink succeeds (both endpoints were added), an endpoint whose port is not
  given gets the number of neighbours in its port table before the call, plus 1 if it
  is a switch at that moment and 0 otherwise. The value is read back from the table: for
  the second endpoint always, for the first unless the link is a self-loop with an explicit
  second port (see C10). In the star of one switch and three hosts the ports are
  (0, 1), (0, 2) and (0, 3).
\<close>

theorem auto_port_assignment:
  "(dict_has (node_info t) node1 \<and> dict_has (node_info t) node2 \<longrightarrow>
      (port2 = None \<longrightarrow>
         port_cell (ports (snd (addLink node1 node2 port1 port2 kw t))) node2 node1 =
           Some (int (card {b. port_cell (ports t) node2 b \<noteq> None})
                 + (if isSwitch node2 t = Inr True then 1 else 0))) \<and>
      (port1 = None \<and> (node1 \<noteq> node2 \<or> port2 = None) \<longrightarrow>
         port_cell (ports (snd (addLink node1 node2 port1 port2 kw t))) node1 node2 =
           Some (int (card {b. port_cell (ports t) node1 b \<noteq> None})
                 + (if isSwitch node1 t = Inr True then 1 else 0)))) \<and>
   (let star = run [AddSwitch ''s1'' [],
                    AddHost ''h1'' [], AddLink ''h1'' ''s1'' None None [],
                    AddHost ''h2'' [], AddLink ''h2'' ''s1'' None None [],
                    AddHost ''h3'' [], AddLink ''h3'' ''s1'' None None []] Topo_new
    in port ''h1'' ''s1'' star = Inr (Some (0, 1)) \<and>
       port ''h2'' ''s1'' star = Inr (Some (0, 2)) \<and>
       port ''h3'' ''s1'' star = Inr (Some (0, 3)))"
proof -
  have general: "port_cell (ports (snd (addLink node1 node2 port1 port2 kw t))) node2 node1 =
           Some (int (card {b. port_cell (ports t) node2 b \<noteq> None})
                 + (if isSwitch node2 t = Inr True then 1 else 0))"
    if "dict_has (node_info t) node1" "dict_has (node_info t) node2" "port2 = None"
    using that by (simp add: addLink_cells new_port_auto)
  have general1: "port_cell (ports (snd (addLink node1 node2 port1 port2 kw t))) node1 node2 =
           Some (int (card {b. port_cell (ports t) node1 b \<noteq> None})
                 + (if isSwitch node1 t = Inr True then 1 else 0))"
    if "dict_has (node_info t) node1" "dict_has (node_info t) node2" "port1 = None"
       "node1 \<noteq> node2 \<or> port2 = None"
  proof (cases "node1 = node2")
    case True
    with that have "port2 = None" by simp
    with that True show ?thesis by (simp add: addLink_cells new_port_auto)
  next
    case False
    with that show ?thesis by (simp add: addLink_cells new_port_auto)
  qed
  have star: "let star = run [AddSwitch ''s1'' [],
                    AddHost ''h1'' [], AddLink ''h1'' ''s1'' None None [],
                    AddHost ''h2'' [], AddLink ''h2'' ''s1'' None None [],
                    AddHost ''h3'' [], AddLink ''h3'' ''s1'' None None []] Topo_new
    in port ''h1'' ''s1'' star = Inr (Some (0, 1)) \<and>
       port ''h2'' ''s1'' star = Inr (Some (0, 2)) \<and>
       port ''h3'' ''s1'' star = Inr (Some (0, 3))"
    by (simp add: node_eval dict_eval link_eval natural_eval Let_def)
  from general general1 star show ?thesis by blast
qed

theorem auto_port_assignment_witness:
  "dict_has (node_info (run [AddSwitch ''s1'' [], AddHost ''h1'' [],
        AddLink ''h1'' ''s1'' None None [], AddHost ''h2'' []] Topo_new)) ''h2'' \<and>
   dict_has (node_info (run [AddSwitch ''s1'' [], AddHost ''h1'' [],
        AddLink ''h1'' ''s1'' None None [], AddHost ''h2'' []] Topo_new)) ''s1'' \<and>
   card {b. port_cell (ports (run [AddSwitch ''s1'' [], AddHost ''h1'' [],
        AddLink ''h1'' ''s1'' None None [], AddHost ''h2'' []] Topo_new)) ''s1'' b \<noteq> None} = 1 \<and>
   isSwitch ''s1'' (run [AddSwitch ''s1'' [], AddHost ''h1'' [],
        AddLink ''h1'' ''s1'' None None [], AddHost ''h2'' []] Topo_new) = Inr True \<and>
   port_cell (ports (snd (addLink ''h2'' ''s1'' None None []
      (run [AddSwitch ''s1'' [], AddHost ''h1'' [],
            AddLink ''h1'' ''s1'' None None [], AddHost ''h2'' []] Topo_new)))) ''s1'' ''h2'' = Some 2"
proof -
  let ?t = "run [AddSwitch ''s1'' [], AddHost ''h1'' [],
        AddLink ''h1'' ''s1'' None None [], AddHost ''h2'' []] Topo_new"
  have a: "dict_has (node_info ?t) ''h2''" "dict_has (node_info ?t) ''s1''"
    by (simp_all add: node_eval dict_eval link_eval natural_eval Let_def)
  have "dict_len (case dict_get (ports ?t) ''s1'' of None \<Rightarrow> [] | Some tbl \<Rightarrow> tbl) = 1"
    by (simp add: node_eval dict_eval link_eval natural_eval Let_def)
  then have c: "card {b. port_cell (ports ?t) ''s1'' b \<noteq> None} = 1"
    by (simp only: neighbours_card)
  have s: "isSwitch ''s1'' ?t = Inr True"
    by (simp add: node_eval dict_eval link_eval natural_eval Let_def)
  from auto_port_assignment [of ?t "''h2''" "''s1''" None None "[]"] a
  have "port_cell (ports (snd (addLink ''h2'' ''s1'' None None [] ?t))) ''s1'' ''h2'' =
           Some (int (card {b. port_cell (ports ?t) ''s1'' b \<noteq> None})
                 + (if isSwitch ''s1'' ?t = Inr True then 1 else 0))"
    by blast
  with a c s show ?thesis by simp
qed

section \<open>The edge store\<close>

lemma count_pairs: "count_list (map (Pair s) xs) (a, b) = (if s = a then count_list xs b else 0)"
  by (induction xs) auto

lemma count_concat_keys:
  "distinct ks \<Longrightarrow>
   count_list (concat (map (\<lambda>s. map (Pair s) (f s)) ks)) (a, b)
     = (if a \<in> set ks then count_list (f a) b else 0)"
  by (induction ks) (auto simp: count_pairs)

lemma adj_the: "a \<in> set (dict_keys (data G)) \<Longrightarrow> the (dict_get (data G) a) = adj G a"
  by (auto simp: adj_def dict_get_None_iff split: option.splits)

lemma adj_not_key: "a \<notin> set (dict_keys (data G)) \<Longrightarrow> adj G a = []"
  by (simp add: adj_def dict_get_None_iff [symmetric])

lemma count_edges: "count_list (edges G) (a, b) = count_list (adj G a) b"
  unfolding edges_def
  by (simp add: count_concat_keys adj_the adj_not_key)

lemma adj_add_node [simp]: "adj (add_node n G) a = adj G a"
  by (simp add: adj_def add_node_def dict_get_setdefault)

lemma data_add_edge:
  "dict_get (data (add_edge x y G)) k =
     (if k = min x y then Some (adj G (min x y) @ [max x y])
      else if k = max x y \<and> \<not> dict_has (data G) k then Some []
      else dict_get (data G) k)"
proof -
  define s d where "s = min x y" and "d = max x y"
  let ?G2 = "add_node d (add_node s G)"
  have e0: "add_edge x y G = ?G2\<lparr>data := dict_set s (the (dict_get (data ?G2) s) @ [d]) (data ?G2)\<rparr>"
    by (simp only: add_edge_def tuple2_sort Let_def prod.case s_def d_def)
  have "dict_get (data ?G2) s \<noteq> None"
    by (simp add: add_node_def dict_get_setdefault)
  then have "the (dict_get (data ?G2) s) = adj ?G2 s"
    by (auto simp: adj_def)
  then have e: "data (add_edge x y G) = dict_set s (adj G s @ [d]) (data ?G2)"
    by (simp add: e0)
  have "dict_get (data (add_edge x y G)) k =
     (if k = s then Some (adj G s @ [d])
      else if k = d \<and> \<not> dict_has (data G) k then Some []
      else dict_get (data G) k)"
    unfolding e by (auto simp: add_node_def dict_get_setdefault dict_has_def)
  then show ?thesis by (simp only: s_def d_def)
qed

lemma keys_add_edge:
  "set (dict_keys (data (add_edge x y G))) = insert x (insert y (set (dict_keys (data G))))"
proof -
  have "k \<in> set (dict_keys (data (add_edge x y G))) \<longleftrightarrow> k \<in> insert x (insert y (set (dict_keys (data G))))" for k
    using dict_get_None_iff [of "data (add_edge x y G)" k] dict_get_None_iff [of "data G" k]
    by (auto simp: data_add_edge dict_has_def min_def max_def split: if_splits)
  then show ?thesis by blast
qed

lemma adj_add_edge:
  "adj (add_edge x y G) a = (if a = min x y then adj G a @ [max x y] else adj G a)"
  unfolding adj_def [of "add_edge x y G"] data_add_edge
  by (auto simp: adj_def dict_has_def)

lemma count_edges_add_node [simp]: "count_list (edges (add_node n G)) e = count_list (edges G) e"
  by (cases e) (simp add: count_edges)

lemma count_edges_add_edge:
  "count_list (edges (add_edge x y G)) e =
     count_list (edges G) e + (if e = (min x y, max x y) then 1 else 0)"
  by (cases e) (auto simp: count_edges adj_add_edge)

lemma set_edges_add_node [simp]: "set (edges (add_node n G)) = set (edges G)"
proof -
  have "e \<in> set (edges (add_node n G)) \<longleftrightarrow> e \<in> set (edges G)" for e
    using count_list_0_iff [of "edges (add_node n G)" e] count_list_0_iff [of "edges G" e]
    by simp
  then show ?thesis by blast
qed

lemma set_edges_add_edge: "set (edges (add_edge x y G)) = insert (min x y, max x y) (set (edges G))"
proof -
  have "e \<in> set (edges (add_edge x y G)) \<longleftrightarrow> e \<in> insert (min x y, max x y) (set (edges G))" for e
    using count_list_0_iff [of "edges (add_edge x y G)" e] count_list_0_iff [of "edges G" e]
    by (auto simp: count_edges_add_edge split: if_splits)
  then show ?thesis by blast
qed

lemma mset_edges_add_edge: "mset (edges (add_edge x y G)) = add_mset (min x y, max x y) (mset (edges G))"
  by (rule multiset_eqI) (simp add: count_edges_add_edge count_mset)

section \<open>Parallel links\<close>

lemma addLink_ok_fields:
  assumes "dict_has (node_info t) a" "dict_has (node_info t) b"
  shows "fst (addLink a b p1 p2 kw t) = Inr (tuple2 (Topo_sorted [a, b]))"
    and "link_info (snd (addLink a b p1 p2 kw t))
           = dict_set (tuple2 (Topo_sorted [a, b])) (link_opts kw t) (link_info t)"
    and "g (snd (addLink a b p1 p2 kw t)) = add_edge a b (g t)"
    and "lopts (snd (addLink a b p1 p2 kw t)) = lopts t"
proof -
  have h: "dict_get (node_info t) a \<noteq> None" "dict_get (node_info t) b \<noteq> None"
    using assms by (simp_all add: dict_has_def)
  from addLink_ok [OF h, of p1 p2 kw] obtain ps where
    eq: "addLink a b p1 p2 kw t =
       (Inr (tuple2 (Topo_sorted [a, b])),
        t\<lparr>ports := ps,
          link_info := dict_set (tuple2 (Topo_sorted [a, b])) (link_opts kw t) (link_info t),
          g := add_edge a b (g t)\<rparr>)" by blast
  show "fst (addLink a b p1 p2 kw t) = Inr (tuple2 (Topo_sorted [a, b]))"
    and "link_info (snd (addLink a b p1 p2 kw t))
           = dict_set (tuple2 (Topo_sorted [a, b])) (link_opts kw t) (link_info t)"
    and "g (snd (addLink a b p1 p2 kw t)) = add_edge a b (g t)"
    and "lopts (snd (addLink a b p1 p2 kw t)) = lopts t"
    by (simp_all add: eq)
qed

lemma mset_links_sorted:
  "mset (links True t) = image_mset (\<lambda>e. tuple2 (Topo_sorted [fst e, snd e])) (mset (edges (g t)))"
  by (simp add: links_def)

lemma count_links_sorted_add_edge:
  assumes "g t' = add_edge x y (g t)"
  shows "count_list (links True t') k =
     count_list (links True t) k
       + (if tuple2 (Topo_sorted [min x y, max x y]) = k then 1 else 0)"
proof -
  have "count (mset (links True t')) k =
     count (mset (links True t)) k + (if tuple2 (Topo_sorted [min x y, max x y]) = k then 1 else 0)"
    unfolding mset_links_sorted assms mset_edges_add_edge by simp
  then show ?thesis by (simp only: count_mset)
qed

lemma count_links_raw_add_edge:
  assumes "g t' = add_edge x y (g t)"
  shows "count_list (links False t') k =
     count_list (links False t) k + (if k = (min x y, max x y) then 1 else 0)"
  by (simp add: links_def assms count_edges_add_edge)

text \<open>
  A second addLink between the same added nodes A and B, given in the same order,
  returns the same key; \<open>link_info\<close> then is the table before the first link with that key
  set to the second link's options, both ports are those of the second call, and the edge
  store holds the pair twice more than before, so links() lists it twice more, sorted or
  not.
\<close>

theorem second_link_overwrites:
  assumes "dict_has (node_info t) A" and "dict_has (node_info t) B"
  shows "let t1 = snd (addLink A B p1 p2 kw1 t);
             r2 = addLink A B q1 q2 kw2 t1;
             t2 = snd r2;
             key = tuple2 (Topo_sorted [A, B])
         in fst r2 = Inr key \<and>
            link_info t2 = dict_set key (link_opts kw2 t) (link_info t) \<and>
            linkInfo A B t2 = Inr (link_opts kw2 t) \<and>
            port A B t2 = Inr (Some (if A = B then new_port B q2 t1 else new_port A q1 t1,
                                     new_port B q2 t1)) \<and>
            (\<forall>x y. q1 = Some x \<and> q2 = Some y \<longrightarrow>
                   port A B t2 = Inr (Some (if A = B then y else x, y))) \<and>
            count_list (links False t2) (min A B, max A B)
              = count_list (links False t) (min A B, max A B) + 2 \<and>
            count_list (links True t2) (tuple2 (Topo_sorted [min A B, max A B]))
              = count_list (links True t) (tuple2 (Topo_sorted [min A B, max A B])) + 2"
proof -
  define t1 where "t1 = snd (addLink A B p1 p2 kw1 t)"
  define t2 where "t2 = snd (addLink A B q1 q2 kw2 t1)"
  define key where "key = tuple2 (Topo_sorted [A, B])"
  have h1: "dict_has (node_info t1) A" "dict_has (node_info t1) B"
    using assms by (simp_all add: t1_def)
  note f1 = addLink_ok_fields [OF assms, of p1 p2 kw1, folded t1_def key_def]
  note f2 = addLink_ok_fields [OF h1, of q1 q2 kw2, folded t2_def key_def]
  have lo: "link_opts kw2 t1 = link_opts kw2 t"
    by (simp add: link_opts_def f1(4))
  have a: "fst (addLink A B q1 q2 kw2 t1) = Inr key" by (rule f2(1))
  have b: "link_info t2 = dict_set key (link_opts kw2 t) (link_info t)"
    by (simp add: f2(2) f1(2) lo dict_set_twice)
  have c: "linkInfo A B t2 = Inr (link_opts kw2 t)"
    by (simp add: linkInfo_def b key_def [symmetric])
  have ab: "port_cell (ports t2) A B = Some (if A = B then new_port B q2 t1 else new_port A q1 t1)"
  proof (cases "A = B")
    case True
    with h1 show ?thesis by (simp add: t2_def addLink_cells)
  next
    case False
    with h1 show ?thesis by (simp add: t2_def addLink_cells)
  qed
  have ba: "port_cell (ports t2) B A = Some (new_port B q2 t1)"
    using h1 by (simp add: t2_def addLink_cells)
  have d: "port A B t2 = Inr (Some (if A = B then new_port B q2 t1 else new_port A q1 t1,
                                     new_port B q2 t1))"
    by (rule port_of_cells [OF ab ba])
  have e: "port A B t2 = Inr (Some (if A = B then y else x, y))" if "q1 = Some x \<and> q2 = Some y" for x y
    using that by (simp add: d new_port_def)
  have f: "count_list (links False t2) (min A B, max A B)
              = count_list (links False t) (min A B, max A B) + 2"
    by (simp add: count_links_raw_add_edge [OF f2(3)] count_links_raw_add_edge [OF f1(3)])
  have g: "count_list (links True t2) (tuple2 (Topo_sorted [min A B, max A B]))
              = count_list (links True t) (tuple2 (Topo_sorted [min A B, max A B])) + 2"
    by (simp add: count_links_sorted_add_edge [OF f2(3)] count_links_sorted_add_edge [OF f1(3)])
  from a b c d e f g show ?thesis
    unfolding Let_def t1_def [symmetric] t2_def [symmetric] key_def [symmetric] by blast
qed

theorem second_link_overwrites_witness:
  "dict_has (node_info (run [AddSwitch ''s1'' [], AddHost ''h1'' []] Topo_new)) ''h1'' \<and>
   dict_has (node_info (run [AddSwitch ''s1'' [], AddHost ''h1'' []] Topo_new)) ''s1'' \<and>
   linkInfo ''h1'' ''s1''
     (snd (addLink ''h1'' ''s1'' (Some 5) (Some 6) [(''bw'', PyInt 20)]
        (snd (addLink ''h1'' ''s1'' (Some 0) (Some 3) [(''bw'', PyInt 10)]
           (run [AddSwitch ''s1'' [], AddHost ''h1'' []] Topo_new)))))
     = Inr [(''bw'', PyInt 20)] \<and>
   port ''h1'' ''s1''
     (snd (addLink ''h1'' ''s1'' (Some 5) (Some 6) [(''bw'', PyInt 20)]
        (snd (addLink ''h1'' ''s1'' (Some 0) (Some 3) [(''bw'', PyInt 10)]
           (run [AddSwitch ''s1'' [], AddHost ''h1'' []] Topo_new)))))
     = Inr (Some (5, 6)) \<and>
   count_list (links False
     (snd (addLink ''h1'' ''s1'' (Some 5) (Some 6) [(''bw'', PyInt 20)]
        (snd (addLink ''h1'' ''s1'' (Some 0) (Some 3) [(''bw'', PyInt 10)]
           (run [AddSwitch ''s1'' [], AddHost ''h1'' []] Topo_new)))))) (''h1'', ''s1'') = 2"
proof -
  let ?t = "run [AddSwitch ''s1'' [], AddHost ''h1'' []] Topo_new"
  have a: "dict_has (node_info ?t) ''h1''" and b: "dict_has (node_info ?t) ''s1''"
    by (simp_all add: node_eval dict_eval)
  have o: "link_opts [(''bw'', PyInt 20)] ?t = [(''bw'', PyInt 20)]"
    by (simp add: link_opts_def)
  have m: "min ''h1'' ''s1'' = ''h1''" "max ''h1'' ''s1'' = ''s1''"
    by (simp_all add: min_def max_def)
  have z: "count_list (links False ?t) (''h1'', ''s1'') = 0"
    by (simp add: links_def edges_def node_eval dict_eval)
  from second_link_overwrites [OF a b, of "Some 0" "Some 3" "[(''bw'', PyInt 10)]"
      "Some 5" "Some 6" "[(''bw'', PyInt 20)]"]
  show ?thesis unfolding Let_def o m z using a b by (simp add: new_port_def)
qed

section \<open>Canonical pairs in the edge store\<close>

text \<open>
  C2, as stated, fails: add_edge sorts with Python's builtin \<open>sorted\<close>, which compares
  strings character by character, so the edge between "h2" and "h10" is stored with
  src "h10" and dest "h2".
\<close>

theorem add_edge_h2_h10_counterexample:
  "edges (add_edge ''h2'' ''h10'' MultiGraph_init) = [(''h10'', ''h2'')] \<and>
   edges (add_edge ''h2'' ''h10'' MultiGraph_init) \<noteq> [(''h2'', ''h10'')] \<and>
   dict_get (data (add_edge ''h2'' ''h10'' MultiGraph_init)) ''h10'' = Some [''h2''] \<and>
   dict_get (data (add_edge ''h2'' ''h10'' MultiGraph_init)) ''h2'' = Some []"
  by (simp add: edges_def add_edge_def add_node_def MultiGraph_init_def dict_eval)

text \<open>
  C2, amended. add_edge(a, b) takes src = min and dest = max of the pair under the plain
  (character by character) string order, registers both endpoints if new, and appends
  dest to the adjacency list of src and to no other list: the store gains exactly the
  edge (src, dest). An edge between "h2" and "h10" is stored with src "h10" and dest "h2".
\<close>

theorem add_edge_plain_order:
  "dict_get (data (add_edge a b G)) k =
     (if k = min a b then Some (adj G (min a b) @ [max a b])
      else if k = max a b \<and> \<not> dict_has (data G) k then Some []
      else dict_get (data G) k) \<and>
   set (dict_keys (data (add_edge a b G))) = {a, b} \<union> set (dict_keys (data G)) \<and>
   adj (add_edge a b G) k = (if k = min a b then adj G k @ [max a b] else adj G k) \<and>
   mset (edges (add_edge a b G)) = add_mset (min a b, max a b) (mset (edges G)) \<and>
   min ''h2'' ''h10'' = ''h10'' \<and> max ''h2'' ''h10'' = ''h2''"
proof -
  have "min ''h2'' ''h10'' = ''h10''" "max ''h2'' ''h10'' = ''h2''"
    by (simp_all add: min_def max_def)
  then show ?thesis
    using data_add_edge [of a b G k] keys_add_edge [of a b G] adj_add_edge [of a b G k]
      mset_edges_add_edge [of a b G]
    by (simp only: insert_is_Un [symmetric] Un_insert_left Un_empty_left simp_thms)
qed

theorem add_edge_plain_order_witness:
  "adj (add_edge ''h2'' ''h10'' MultiGraph_init) ''h10'' = [''h2''] \<and>
   adj (add_edge ''h2'' ''h10'' MultiGraph_init) ''h2'' = [] \<and>
   set (dict_keys (data (add_edge ''h2'' ''h10'' MultiGraph_init))) = {''h2'', ''h10''}"
proof -
  have e: "adj MultiGraph_init n = []" "dict_keys (data MultiGraph_init) = []" for n
    by (simp_all add: adj_def MultiGraph_init_def dict_eval)
  have m: "min ''h2'' ''h10'' = ''h10''" "max ''h2'' ''h10'' = ''h2''"
    by (simp_all add: min_def max_def)
  from add_edge_plain_order [of "''h2''" "''h10''" MultiGraph_init "''h10''"]
       add_edge_plain_order [of "''h2''" "''h10''" MultiGraph_init "''h2''"]
  show ?thesis unfolding m e by simp
qed

section \<open>Link metadata\<close>

lemma linkInfo_setlinkInfo_same: "linkInfo a b (setlinkInfo a b m t) = Inr m"
  by (simp add: linkInfo_def setlinkInfo_def)

lemma sorted_pair_swap:
  "natural a \<noteq> natural b \<or> a = b \<Longrightarrow> tuple2 (Topo_sorted [b, a]) = tuple2 (Topo_sorted [a, b])"
  by (auto simp: tuple2_Topo_sorted)

lemma linkInfo_setlinkInfo_swapped:
  "natural a \<noteq> natural b \<or> a = b \<Longrightarrow> linkInfo b a (setlinkInfo a b m t) = Inr m"
  by (simp add: linkInfo_def setlinkInfo_def sorted_pair_swap)

text \<open>
  C6 at the names "h1" and "h01", whose natural keys are equal: the stable sort keeps the
  caller's order, so the two argument orders give two different keys. After
  addLink("h1", "h01", bw=10) and setlinkInfo("h01", "h1", {bw: 20}), linkInfo in the order
  of the setter returns the new mapping and linkInfo in the other order still returns the
  old one.
\<close>

theorem linkInfo_equal_keys_order_dependent:
  "natural ''h1'' = natural ''h01'' \<and>
   tuple2 (Topo_sorted [''h1'', ''h01'']) = (''h1'', ''h01'') \<and>
   tuple2 (Topo_sorted [''h01'', ''h1'']) = (''h01'', ''h1'') \<and>
   linkInfo ''h01'' ''h1''
     (setlinkInfo ''h01'' ''h1'' [(''bw'', PyInt 20)]
        (run [AddNode ''h1'' [], AddNode ''h01'' [],
              AddLink ''h1'' ''h01'' None None [(''bw'', PyInt 10)]] Topo_new))
     = Inr [(''bw'', PyInt 20)] \<and>
   linkInfo ''h1'' ''h01''
     (setlinkInfo ''h01'' ''h1'' [(''bw'', PyInt 20)]
        (run [AddNode ''h1'' [], AddNode ''h01'' [],
              AddLink ''h1'' ''h01'' None None [(''bw'', PyInt 10)]] Topo_new))
     = Inr [(''bw'', PyInt 10)]"
  by (simp add: node_eval dict_eval link_eval natural_eval Let_def)

section \<open>Invariants of reachable topologies\<close>

lemma min_max_pair_eq:
  "(min a b, max a b) = (min x y, max x y) \<longleftrightarrow> (a = x \<and> b = y) \<or> (a = y \<and> b = x)"
  for a b x y :: "'a::linorder"
  unfolding min_def max_def by (cases "a \<le> b"; cases "x \<le> y") auto

lemma link_recorded_sym: "link_recorded t b a = link_recorded t a b"
  by (simp add: link_recorded_def min.commute max.commute)

lemma call_addNode_edges [simp]: "set (edges (g (snd (call_addNode n flag kw t)))) = set (edges (g t))"
  by (simp add: call_addNode_def addNode_def)

lemma apply_call_edges:
  "\<forall>x y p1 p2 kw. c \<noteq> AddLink x y p1 p2 kw \<Longrightarrow> set (edges (g (apply_call c t))) = set (edges (g t))"
  by (cases c)
     (simp_all add: addNode_def addHost_def addSwitch_def addLegacySwitch_def
        addHostInterface_def addLegacyRouter_def addTransitPortalRouter_def
        setlinkInfo_def setNodeInfo_def)

lemma addLink_edges:
  "set (edges (g (snd (addLink x y p1 p2 kw t)))) =
     (if dict_has (node_info t) x \<and> dict_has (node_info t) y
      then insert (min x y, max x y) (set (edges (g t))) else set (edges (g t)))"
proof (cases "dict_has (node_info t) x \<and> dict_has (node_info t) y")
  case True
  then have "g (snd (addLink x y p1 p2 kw t)) = add_edge x y (g t)"
    by (simp add: addLink_ok_fields)
  with True show ?thesis by (simp add: set_edges_add_edge)
next
  case False
  then have "dict_get (node_info t) x = None \<or> dict_get (node_info t) y = None"
    by (auto simp: dict_has_def)
  from addLink_fail [OF this, of p1 p2 kw]
  have "g (snd (addLink x y p1 p2 kw t)) = g t" by simp
  moreover have "(dict_has (node_info t) x \<and> dict_has (node_info t) y) = False"
    using False by blast
  ultimately show ?thesis by (simp only: if_False)
qed

lemma addLink_ports_match_edges:
  assumes "ports_match_edges t"
  shows "ports_match_edges (snd (addLink x y p1 p2 kw t))"
proof (cases "dict_has (node_info t) x \<and> dict_has (node_info t) y")
  case True
  have "(port_cell (ports (snd (addLink x y p1 p2 kw t))) a b \<noteq> None)
          = link_recorded (snd (addLink x y p1 p2 kw t)) a b" for a b
  proof -
    have l: "link_recorded (snd (addLink x y p1 p2 kw t)) a b
              \<longleftrightarrow> (a = x \<and> b = y) \<or> (a = y \<and> b = x) \<or> link_recorded t a b"
    proof -
      have "set (edges (g (snd (addLink x y p1 p2 kw t))))
              = insert (min x y, max x y) (set (edges (g t)))"
        using True by (simp add: addLink_edges)
      then have "link_recorded (snd (addLink x y p1 p2 kw t)) a b
              \<longleftrightarrow> (min a b, max a b) = (min x y, max x y) \<or> link_recorded t a b"
        by (simp only: link_recorded_def insert_iff)
      then show ?thesis by (simp only: min_max_pair_eq disj_assoc)
    qed
    have c: "port_cell (ports (snd (addLink x y p1 p2 kw t))) a b \<noteq> None
              \<longleftrightarrow> (a = x \<and> b = y) \<or> (a = y \<and> b = x) \<or> port_cell (ports t) a b \<noteq> None"
    proof -
      have T: "(dict_has (node_info t) x \<and> dict_has (node_info t) y) = True"
        using True by blast
      have "port_cell (ports (snd (addLink x y p1 p2 kw t))) a b =
          (if a = y \<and> b = x then Some (new_port y p2 t)
           else if a = x \<and> b = y then Some (new_port x p1 t)
           else port_cell (ports t) a b)"
        by (simp only: addLink_cells T if_True)
      then show ?thesis by (metis option.distinct(1))
    qed
    from l c assms show ?thesis by (simp add: ports_match_edges_def)
  qed
  then show ?thesis by (simp add: ports_match_edges_def)
next
  case False
  then have f: "(dict_has (node_info t) x \<and> dict_has (node_info t) y) = False" by blast
  have "link_recorded (snd (addLink x y p1 p2 kw t)) a b = link_recorded t a b" for a b
    by (simp only: link_recorded_def addLink_edges f if_False)
  moreover have "port_cell (ports (snd (addLink x y p1 p2 kw t))) a b = port_cell (ports t) a b" for a b
    by (simp only: addLink_cells f if_False)
  ultimately show ?thesis using assms by (simp add: ports_match_edges_def)
qed

lemma apply_call_ports_match_edges: "ports_match_edges t \<Longrightarrow> ports_match_edges (apply_call c t)"
proof (cases "\<exists>x y p1 p2 kw. c = AddLink x y p1 p2 kw")
  case True
  then obtain x y p1 p2 kw where c: "c = AddLink x y p1 p2 kw" by blast
  assume "ports_match_edges t"
  then show ?thesis by (simp add: c addLink_ports_match_edges)
next
  case False
  assume "ports_match_edges t"
  with False show ?thesis
    by (simp add: ports_match_edges_def link_recorded_def apply_call_ports apply_call_edges)
qed

lemma run_ports_match_edges: "ports_match_edges t \<Longrightarrow> ports_match_edges (run cs t)"
  unfolding run_def by (induction cs arbitrary: t) (simp_all add: apply_call_ports_match_edges)

lemma init_ports_match_edges: "ports_match_edges (Topo_init h s l lr ls tpr hi)"
  by (simp add: ports_match_edges_def link_recorded_def Topo_init_def MultiGraph_init_def
        port_cell_def edges_def dict_keys_def)

lemma reachable_run: "reachable (run cs (Topo_init h s l lr ls tpr hi))"
  unfolding reachable_def by blast

lemma reachable_port_sym: "reachable t \<Longrightarrow> port_sym t"
  unfolding reachable_def using run_port_sym [OF init_port_sym] by blast

lemma reachable_ports_match_edges: "reachable t \<Longrightarrow> ports_match_edges t"
  unfolding reachable_def using run_ports_match_edges [OF init_ports_match_edges] by blast

section \<open>Properties of the port table\<close>

lemma reachable_run_from: "reachable t \<Longrightarrow> reachable (run cs t)"
proof -
  assume "reachable t"
  then obtain cs0 h s l lr ls tpr hi where t: "t = run cs0 (Topo_init h s l lr ls tpr hi)"
    unfolding reachable_def by blast
  have "run cs t = run (cs0 @ cs) (Topo_init h s l lr ls tpr hi)"
    by (simp add: t run_def)
  then show ?thesis unfolding reachable_def by blast
qed

lemma reachable_apply_call: "reachable t \<Longrightarrow> reachable (apply_call c t)"
  using reachable_run_from [of t "[c]"] by (simp add: run_def)

text \<open>
  C3, as stated, fails for the value part: a link stays in the edge store with the ports
  it was given while the cells hold another link's ports. After addLink(a, b, 1, 2) and
  addLink(b, a, 1, 2) the store has the edge twice and port(a, b) is (2, 1); after
  addLink(n, n, 4, 7) the one cell of the self-loop holds 7.
\<close>

theorem port_table_first_link_counterexample:
  "fst (addLink ''a'' ''b'' (Some 1) (Some 2) []
          (run [AddNode ''a'' [], AddNode ''b'' []] Topo_new)) = Inr (''a'', ''b'') \<and>
   reachable (run [AddNode ''a'' [], AddNode ''b'' [],
                   AddLink ''a'' ''b'' (Some 1) (Some 2) [],
                   AddLink ''b'' ''a'' (Some 1) (Some 2) []] Topo_new) \<and>
   links True (run [AddNode ''a'' [], AddNode ''b'' [],
                   AddLink ''a'' ''b'' (Some 1) (Some 2) [],
                   AddLink ''b'' ''a'' (Some 1) (Some 2) []] Topo_new)
     = [(''a'', ''b''), (''a'', ''b'')] \<and>
   port_cell (ports (run [AddNode ''a'' [], AddNode ''b'' [],
                   AddLink ''a'' ''b'' (Some 1) (Some 2) [],
                   AddLink ''b'' ''a'' (Some 1) (Some 2) []] Topo_new)) ''a'' ''b'' = Some 2 \<and>
   port_cell (ports (run [AddNode ''a'' [], AddNode ''b'' [],
                   AddLink ''a'' ''b'' (Some 1) (Some 2) [],
                   AddLink ''b'' ''a'' (Some 1) (Some 2) []] Topo_new)) ''b'' ''a'' = Some 1 \<and>
   port ''a'' ''b'' (run [AddNode ''a'' [], AddNode ''b'' [],
                   AddLink ''a'' ''b'' (Some 1) (Some 2) [],
                   AddLink ''b'' ''a'' (Some 1) (Some 2) []] Topo_new) = Inr (Some (2, 1)) \<and>
   link_recorded (run [AddNode ''n'' [], AddLink ''n'' ''n'' (Some 4) (Some 7) []] Topo_new)
     ''n'' ''n'' \<and>
   port_cell (ports (run [AddNode ''n'' [], AddLink ''n'' ''n'' (Some 4) (Some 7) []] Topo_new))
     ''n'' ''n'' = Some 7"
proof -
  have r: "reachable (run [AddNode ''a'' [], AddNode ''b'' [],
                   AddLink ''a'' ''b'' (Some 1) (Some 2) [],
                   AddLink ''b'' ''a'' (Some 1) (Some 2) []] Topo_new)"
    unfolding Topo_new_def by (rule reachable_run)
  have e: "fst (addLink ''a'' ''b'' (Some 1) (Some 2) []
          (run [AddNode ''a'' [], AddNode ''b'' []] Topo_new)) = Inr (''a'', ''b'') \<and>
   links True (run [AddNode ''a'' [], AddNode ''b'' [],
                   AddLink ''a'' ''b'' (Some 1) (Some 2) [],
                   AddLink ''b'' ''a'' (Some 1) (Some 2) []] Topo_new)
     = [(''a'', ''b''), (''a'', ''b'')] \<and>
   port_cell (ports (run [AddNode ''a'' [], AddNode ''b'' [],
                   AddLink ''a'' ''b'' (Some 1) (Some 2) [],
                   AddLink ''b'' ''a'' (Some 1) (Some 2) []] Topo_new)) ''a'' ''b'' = Some 2 \<and>
   port_cell (ports (run [AddNode ''a'' [], AddNode ''b'' [],
                   AddLink ''a'' ''b'' (Some 1) (Some 2) [],
                   AddLink ''b'' ''a'' (Some 1) (Some 2) []] Topo_new)) ''b'' ''a'' = Some 1 \<and>
   port ''a'' ''b'' (run [AddNode ''a'' [], AddNode ''b'' [],
                   AddLink ''a'' ''b'' (Some 1) (Some 2) [],
                   AddLink ''b'' ''a'' (Some 1) (Some 2) []] Topo_new) = Inr (Some (2, 1))"
    by (simp add: links_def edges_def node_eval dict_eval link_eval natural_eval Let_def)
  have s: "link_recorded (run [AddNode ''n'' [], AddLink ''n'' ''n'' (Some 4) (Some 7) []] Topo_new)
     ''n'' ''n'' \<and>
   port_cell (ports (run [AddNode ''n'' [], AddLink ''n'' ''n'' (Some 4) (Some 7) []] Topo_new))
     ''n'' ''n'' = Some 7"
    by (simp add: link_recorded_def edges_def node_eval dict_eval link_eval natural_eval Let_def)
  from r e s show ?thesis by blast
qed

text \<open>
  C3, amended. Every topology reached from a fresh Topo by calls of the public API (also
  calls that raised) has a symmetric port table: a cell \<open>ports[A][B]\<close> comes with a cell
  \<open>ports[B][A]\<close>; each call keeps the symmetry, from any symmetric table; and for a link
  recorded in the edge store between A and B both cells exist and port returns them in
  either order. The cells hold the ports of the latest link between A and B: after
  addLink(A, B) settled on the ports (pA, pB) and until another link between A and B is
  added, \<open>ports[B][A]\<close> is pB and \<open>ports[A][B]\<close> is pA (pB for a self-loop, whose two
  cells are one). The ports of an earlier link between the two are gone.
\<close>

theorem port_table_symmetric:
  "(reachable t \<longrightarrow> port_sym t) \<and>
   (port_sym t \<longrightarrow> port_sym (apply_call c t)) \<and>
   (reachable t \<and> link_recorded t A B \<longrightarrow>
      (\<exists>pA pB. port_cell (ports t) A B = Some pA \<and> port_cell (ports t) B A = Some pB \<and>
               port A B t = Inr (Some (pA, pB)) \<and> port B A t = Inr (Some (pB, pA)))) \<and>
   (reachable t \<and> dict_has (node_info t) A \<and> dict_has (node_info t) B \<and>
    (\<forall>c \<in> set cs. \<not> links_pair c A B) \<longrightarrow>
      reachable (run cs (snd (addLink A B p1 p2 kw t))) \<and>
      link_recorded (run cs (snd (addLink A B p1 p2 kw t))) A B \<and>
      port_cell (ports (run cs (snd (addLink A B p1 p2 kw t)))) A B
        = Some (if A = B then new_port B p2 t else new_port A p1 t) \<and>
      port_cell (ports (run cs (snd (addLink A B p1 p2 kw t)))) B A = Some (new_port B p2 t) \<and>
      port A B (run cs (snd (addLink A B p1 p2 kw t)))
        = Inr (Some (if A = B then new_port B p2 t else new_port A p1 t, new_port B p2 t)) \<and>
      port B A (run cs (snd (addLink A B p1 p2 kw t)))
        = Inr (Some (new_port B p2 t, if A = B then new_port B p2 t else new_port A p1 t)))"
proof -
  have both: "\<exists>pA pB. port_cell (ports t) A B = Some pA \<and> port_cell (ports t) B A = Some pB \<and>
               port A B t = Inr (Some (pA, pB)) \<and> port B A t = Inr (Some (pB, pA))"
    if r: "reachable t" and l: "link_recorded t A B"
  proof -
    from reachable_ports_match_edges [OF r] l
    have "port_cell (ports t) A B \<noteq> None"
      by (simp add: ports_match_edges_def)
    moreover from reachable_ports_match_edges [OF r] l
    have "port_cell (ports t) B A \<noteq> None"
      by (simp add: ports_match_edges_def link_recorded_sym [of t B A])
    ultimately obtain pA pB where
      c: "port_cell (ports t) A B = Some pA" "port_cell (ports t) B A = Some pB"
      by blast
    from c port_of_cells [OF c] port_of_cells [OF c(2) c(1)] show ?thesis by blast
  qed
  have latest:
     "reachable (run cs (snd (addLink A B p1 p2 kw t))) \<and>
      link_recorded (run cs (snd (addLink A B p1 p2 kw t))) A B \<and>
      port_cell (ports (run cs (snd (addLink A B p1 p2 kw t)))) A B
        = Some (if A = B then new_port B p2 t else new_port A p1 t) \<and>
      port_cell (ports (run cs (snd (addLink A B p1 p2 kw t)))) B A = Some (new_port B p2 t) \<and>
      port A B (run cs (snd (addLink A B p1 p2 kw t)))
        = Inr (Some (if A = B then new_port B p2 t else new_port A p1 t, new_port B p2 t)) \<and>
      port B A (run cs (snd (addLink A B p1 p2 kw t)))
        = Inr (Some (new_port B p2 t, if A = B then new_port B p2 t else new_port A p1 t))"
    if r: "reachable t" and a: "dict_has (node_info t) A" and b: "dict_has (node_info t) B"
      and f: "\<forall>c \<in> set cs. \<not> links_pair c A B"
  proof -
    let ?t1 = "snd (addLink A B p1 p2 kw t)"
    let ?t2 = "run cs ?t1"
    have "reachable (apply_call (AddLink A B p1 p2 kw) t)"
      by (rule reachable_apply_call [OF r])
    then have r2: "reachable ?t2"
      by (simp add: reachable_run_from)
    have ab1: "port_cell (ports ?t1) A B = Some (if A = B then new_port B p2 t else new_port A p1 t)"
    proof (cases "A = B")
      case True
      with a show ?thesis by (simp add: addLink_cells)
    next
      case False
      with a b show ?thesis by (simp add: addLink_cells)
    qed
    have ba1: "port_cell (ports ?t1) B A = Some (new_port B p2 t)"
      using a b by (simp add: addLink_cells)
    have f': "\<forall>c \<in> set cs. \<not> links_pair c B A"
      using f by (simp add: links_pair_sym)
    have ab: "port_cell (ports ?t2) A B = Some (if A = B then new_port B p2 t else new_port A p1 t)"
      using run_frame [OF f, of ?t1] ab1 by simp
    have ba: "port_cell (ports ?t2) B A = Some (new_port B p2 t)"
      using run_frame [OF f', of ?t1] ba1 by simp
    have "port_cell (ports ?t2) A B \<noteq> None"
      by (simp only: ab option.distinct not_False_eq_True)
    with reachable_ports_match_edges [OF r2] have l: "link_recorded ?t2 A B"
      unfolding ports_match_edges_def by blast
    from r2 l ab ba port_of_cells [OF ab ba] port_of_cells [OF ba ab] show ?thesis by blast
  qed
  from both latest reachable_port_sym [of t] apply_call_port_sym [of t c]
  show ?thesis by blast
qed

theorem port_table_symmetric_witness:
  "reachable (run [AddSwitch ''s1'' [], AddHost ''h1'' [], AddHost ''h2'' []] Topo_new) \<and>
   dict_has (node_info (run [AddSwitch ''s1'' [], AddHost ''h1'' [], AddHost ''h2'' []] Topo_new)) ''h1'' \<and>
   dict_has (node_info (run [AddSwitch ''s1'' [], AddHost ''h1'' [], AddHost ''h2'' []] Topo_new)) ''s1'' \<and>
   port_sym (run [AddSwitch ''s1'' [], AddHost ''h1'' [], AddHost ''h2'' []] Topo_new) \<and>
   port_sym (apply_call (AddLink ''h1'' ''s1'' None None [])
              (run [AddSwitch ''s1'' [], AddHost ''h1'' [], AddHost ''h2'' []] Topo_new)) \<and>
   link_recorded
     (run [AddLink ''h2'' ''s1'' None None []]
        (snd (addLink ''h1'' ''s1'' None None []
           (run [AddSwitch ''s1'' [], AddHost ''h1'' [], AddHost ''h2'' []] Topo_new))))
     ''h1'' ''s1'' \<and>
   port_cell (ports
     (run [AddLink ''h2'' ''s1'' None None []]
        (snd (addLink ''h1'' ''s1'' None None []
           (run [AddSwitch ''s1'' [], AddHost ''h1'' [], AddHost ''h2'' []] Topo_new)))))
     ''s1'' ''h1'' = Some 1 \<and>
   port ''h1'' ''s1''
     (run [AddLink ''h2'' ''s1'' None None []]
        (snd (addLink ''h1'' ''s1'' None None []
           (run [AddSwitch ''s1'' [], AddHost ''h1'' [], AddHost ''h2'' []] Topo_new))))
     = Inr (Some (0, 1))"
proof -
  let ?t = "run [AddSwitch ''s1'' [], AddHost ''h1'' [], AddHost ''h2'' []] Topo_new"
  have r: "reachable ?t"
    unfolding Topo_new_def by (rule reachable_run)
  have a: "dict_has (node_info ?t) ''h1''" and b: "dict_has (node_info ?t) ''s1''"
    by (simp_all add: node_eval dict_eval)
  have f: "\<forall>c \<in> set [AddLink ''h2'' ''s1'' None None []]. \<not> links_pair c ''h1'' ''s1''"
    by simp
  have n: "new_port ''h1'' None ?t = 0" "new_port ''s1'' None ?t = 1"
    by (simp_all add: new_port_def isSwitch_def node_eval dict_eval)
  have d: "''h1'' \<noteq> ''s1''" by simp
  from port_table_symmetric [of ?t "AddLink ''h1'' ''s1'' None None []" "''h1''" "''s1''"
      "[AddLink ''h2'' ''s1'' None None []]" None None "[]"] r a b f
  show ?thesis unfolding n by (simp only: d if_False simp_thms)
qed

text \<open>
  C7. port(src, dst) returns (ports[src][dst], ports[dst][src]) when both cells exist, and
  None (no exception) when src has no cell for dst. In a reachable topology no cell exists
  where no link was recorded, so port returns None there; and where src has a cell for
  dst the reciprocal cell exists, so the assertion passes and the pair is returned.
\<close>

theorem port_lookup:
  "(port_cell (ports t) src dst = Some sp \<and> port_cell (ports t) dst src = Some dp \<longrightarrow>
      port src dst t = Inr (Some (sp, dp))) \<and>
   (port_cell (ports t) src dst = None \<longrightarrow> port src dst t = Inr None) \<and>
   (reachable t \<and> \<not> link_recorded t src dst \<longrightarrow> port src dst t = Inr None) \<and>
   (reachable t \<and> port_cell (ports t) src dst = Some sp \<longrightarrow>
      (\<exists>dp. port_cell (ports t) dst src = Some dp \<and> port src dst t = Inr (Some (sp, dp)))) \<and>
   (reachable t \<longrightarrow> port src dst t \<noteq> Inl AssertionError)"
proof -
  have a: "port src dst t = Inr (Some (sp, dp))"
    if "port_cell (ports t) src dst = Some sp \<and> port_cell (ports t) dst src = Some dp"
    using that by (simp add: port_def)
  have b: "port src dst t = Inr None" if "port_cell (ports t) src dst = None"
    using that by (simp add: port_def)
  have c: "port src dst t = Inr None" if "reachable t \<and> \<not> link_recorded t src dst"
  proof -
    from that reachable_ports_match_edges [of t]
    have "port_cell (ports t) src dst = None"
      unfolding ports_match_edges_def by blast
    then show ?thesis by (rule b)
  qed
  have d: "\<exists>dp. port_cell (ports t) dst src = Some dp \<and> port src dst t = Inr (Some (sp, dp))"
    if "reachable t \<and> port_cell (ports t) src dst = Some sp"
  proof -
    from that reachable_port_sym [of t]
    have "port_cell (ports t) dst src \<noteq> None"
      unfolding port_sym_def by (metis option.distinct(1))
    then obtain dp where "port_cell (ports t) dst src = Some dp" by blast
    with that show ?thesis by (simp add: port_def)
  qed
  have e: "port src dst t \<noteq> Inl AssertionError" if "reachable t"
  proof (cases "port_cell (ports t) src dst")
    case None
    then show ?thesis by (simp add: port_def)
  next
    case (Some p)
    with that reachable_port_sym [of t]
    have "port_cell (ports t) dst src \<noteq> None"
      unfolding port_sym_def by (metis option.distinct(1))
    with Some show ?thesis by (auto simp: port_def)
  qed
  from a b c d e show ?thesis by blast
qed

theorem port_lookup_witness:
  "reachable (run [AddSwitch ''s1'' [], AddHost ''h1'' [], AddHost ''h2'' [],
                   AddLink ''h1'' ''s1'' None None []] Topo_new) \<and>
   port_cell (ports (run [AddSwitch ''s1'' [], AddHost ''h1'' [], AddHost ''h2'' [],
                   AddLink ''h1'' ''s1'' None None []] Topo_new)) ''h1'' ''s1'' = Some 0 \<and>
   port_cell (ports (run [AddSwitch ''s1'' [], AddHost ''h1'' [], AddHost ''h2'' [],
                   AddLink ''h1'' ''s1'' None None []] Topo_new)) ''s1'' ''h1'' = Some 1 \<and>
   port ''h1'' ''s1'' (run [AddSwitch ''s1'' [], AddHost ''h1'' [], AddHost ''h2'' [],
                   AddLink ''h1'' ''s1'' None None []] Topo_new) = Inr (Some (0, 1)) \<and>
   \<not> link_recorded (run [AddSwitch ''s1'' [], AddHost ''h1'' [], AddHost ''h2'' [],
                   AddLink ''h1'' ''s1'' None None []] Topo_new) ''h2'' ''s1'' \<and>
   port ''h2'' ''s1'' (run [AddSwitch ''s1'' [], AddHost ''h1'' [], AddHost ''h2'' [],
                   AddLink ''h1'' ''s1'' None None []] Topo_new) = Inr None"
proof -
  let ?t = "run [AddSwitch ''s1'' [], AddHost ''h1'' [], AddHost ''h2'' [],
                   AddLink ''h1'' ''s1'' None None []] Topo_new"
  have r: "reachable ?t"
    unfolding Topo_new_def by (rule reachable_run)
  have c1: "port_cell (ports ?t) ''h1'' ''s1'' = Some 0"
    by (simp add: node_eval dict_eval link_eval natural_eval Let_def)
  have c2: "port_cell (ports ?t) ''s1'' ''h1'' = Some 1"
    by (simp add: node_eval dict_eval link_eval natural_eval Let_def)
  have n: "\<not> link_recorded ?t ''h2'' ''s1''"
    by (simp add: link_recorded_def edges_def node_eval dict_eval link_eval natural_eval
          Let_def min_def max_def)
  from port_lookup [of ?t "''h1''" "''s1''" 0 1] c1 c2
  have p1: "port ''h1'' ''s1'' ?t = Inr (Some (0, 1))" by blast
  from port_lookup [of ?t "''h2''" "''s1''"] r n
  have p2: "port ''h2'' ''s1'' ?t = Inr None" by blast
  from r c1 c2 p1 n p2 show ?thesis by blast
qed

section \<open>Parallel links given in the other order\<close>

lemma second_link_other_order:
  assumes "dict_has (node_info t) A" and "dict_has (node_info t) B"
    and "natural A \<noteq> natural B \<or> A = B"
  shows "let t1 = snd (addLink A B p1 p2 kw1 t);
             r2 = addLink B A q1 q2 kw2 t1;
             t2 = snd r2;
             key = tuple2 (Topo_sorted [A, B])
         in fst r2 = Inr key \<and>
            link_info t2 = dict_set key (link_opts kw2 t) (link_info t) \<and>
            linkInfo A B t2 = Inr (link_opts kw2 t) \<and>
            linkInfo B A t2 = Inr (link_opts kw2 t) \<and>
            port B A t2 = Inr (Some (if A = B then new_port A q2 t1 else new_port B q1 t1,
                                     new_port A q2 t1)) \<and>
            count_list (links False t2) (min A B, max A B)
              = count_list (links False t) (min A B, max A B) + 2 \<and>
            count_list (links True t2) (tuple2 (Topo_sorted [min A B, max A B]))
              = count_list (links True t) (tuple2 (Topo_sorted [min A B, max A B])) + 2"
proof -
  define t1 where "t1 = snd (addLink A B p1 p2 kw1 t)"
  define t2 where "t2 = snd (addLink B A q1 q2 kw2 t1)"
  define key where "key = tuple2 (Topo_sorted [A, B])"
  have sw: "tuple2 (Topo_sorted [B, A]) = key"
    unfolding key_def by (rule sorted_pair_swap [OF assms(3)])
  have h1: "dict_has (node_info t1) B" "dict_has (node_info t1) A"
    using assms by (simp_all add: t1_def)
  note f1 = addLink_ok_fields [OF assms(1,2), of p1 p2 kw1, folded t1_def key_def]
  note f2 = addLink_ok_fields [OF h1, of q1 q2 kw2, folded t2_def, unfolded sw]
  have lo: "link_opts kw2 t1 = link_opts kw2 t"
    by (simp add: link_opts_def f1(4))
  have a: "fst (addLink B A q1 q2 kw2 t1) = Inr key" by (rule f2(1))
  have b: "link_info t2 = dict_set key (link_opts kw2 t) (link_info t)"
    by (simp add: f2(2) f1(2) lo dict_set_twice)
  have c: "linkInfo A B t2 = Inr (link_opts kw2 t)"
    by (simp add: linkInfo_def b key_def [symmetric])
  have c': "linkInfo B A t2 = Inr (link_opts kw2 t)"
    by (simp add: linkInfo_def b sw)
  have ba: "port_cell (ports t2) B A = Some (if A = B then new_port A q2 t1 else new_port B q1 t1)"
  proof (cases "A = B")
    case True
    with h1 show ?thesis by (simp add: t2_def addLink_cells)
  next
    case False
    then have "B \<noteq> A" by blast
    with h1 show ?thesis by (simp add: t2_def addLink_cells)
  qed
  have ab: "port_cell (ports t2) A B = Some (new_port A q2 t1)"
    using h1 by (simp add: t2_def addLink_cells)
  have d: "port B A t2 = Inr (Some (if A = B then new_port A q2 t1 else new_port B q1 t1,
                                     new_port A q2 t1))"
    by (rule port_of_cells [OF ba ab])
  have g2: "g t2 = add_edge A B (g t1)"
    by (simp add: f2(3) add_edge_def min.commute max.commute tuple2_sort)
  have f: "count_list (links False t2) (min A B, max A B)
              = count_list (links False t) (min A B, max A B) + 2"
    by (simp add: count_links_raw_add_edge [OF g2] count_links_raw_add_edge [OF f1(3)])
  have g: "count_list (links True t2) (tuple2 (Topo_sorted [min A B, max A B]))
              = count_list (links True t) (tuple2 (Topo_sorted [min A B, max A B])) + 2"
    by (simp add: count_links_sorted_add_edge [OF g2] count_links_sorted_add_edge [OF f1(3)])
  from a b c c' d f g show ?thesis
    unfolding Let_def t1_def [symmetric] t2_def [symmetric] key_def [symmetric] by blast
qed

text \<open>
  C5 at the names "h1" and "h01", whose natural keys are equal: the second link, given in
  the other order, gets a key of its own, so \<open>link_info\<close> keeps the first link's options
  under the first key and linkInfo in the first order still returns them; links() lists
  the pair twice. For "h1" and "s1", whose keys differ, the same two calls leave one entry
  with the second link's options.
\<close>

theorem second_link_equal_keys_keeps_first:
  "link_info (run [AddNode ''h1'' [], AddNode ''h01'' [],
                   AddLink ''h1'' ''h01'' None None [(''bw'', PyInt 10)],
                   AddLink ''h01'' ''h1'' None None [(''bw'', PyInt 20)]] Topo_new)
     = [((''h1'', ''h01''), [(''bw'', PyInt 10)]), ((''h01'', ''h1''), [(''bw'', PyInt 20)])] \<and>
   linkInfo ''h1'' ''h01''
     (run [AddNode ''h1'' [], AddNode ''h01'' [],
           AddLink ''h1'' ''h01'' None None [(''bw'', PyInt 10)],
           AddLink ''h01'' ''h1'' None None [(''bw'', PyInt 20)]] Topo_new)
     = Inr [(''bw'', PyInt 10)] \<and>
   linkInfo ''h01'' ''h1''
     (run [AddNode ''h1'' [], AddNode ''h01'' [],
           AddLink ''h1'' ''h01'' None None [(''bw'', PyInt 10)],
           AddLink ''h01'' ''h1'' None None [(''bw'', PyInt 20)]] Topo_new)
     = Inr [(''bw'', PyInt 20)] \<and>
   port ''h1'' ''h01''
     (run [AddNode ''h1'' [], AddNode ''h01'' [],
           AddLink ''h1'' ''h01'' None None [(''bw'', PyInt 10)],
           AddLink ''h01'' ''h1'' None None [(''bw'', PyInt 20)]] Topo_new)
     = Inr (Some (1, 1)) \<and>
   links True
     (run [AddNode ''h1'' [], AddNode ''h01'' [],
           AddLink ''h1'' ''h01'' None None [(''bw'', PyInt 10)],
           AddLink ''h01'' ''h1'' None None [(''bw'', PyInt 20)]] Topo_new)
     = [(''h01'', ''h1''), (''h01'', ''h1'')] \<and>
   link_info (run [AddNode ''h1'' [], AddNode ''s1'' [],
                   AddLink ''h1'' ''s1'' None None [(''bw'', PyInt 10)],
                   AddLink ''s1'' ''h1'' None None [(''bw'', PyInt 20)]] Topo_new)
     = [((''h1'', ''s1''), [(''bw'', PyInt 20)])]"
  by (simp add: links_def edges_def node_eval dict_eval link_eval natural_eval Let_def)

end
